theory Spec2Isabelle
  imports Main "HOL-Library.Word"
begin

section \<open>Terms, errors and promises\<close>

text \<open>
  The dispatch key of the procedure table: \<^verbatim>\<open>procedureIndicator{name Atom, arity Integer}\<close>.
\<close>

datatype procedureIndicator = ProcedureIndicator (name: string) (arity: int)

text \<open>
  The \<^verbatim>\<open>Term\<close> interface and its implementations. A \<^verbatim>\<open>*Variable\<close> is its identity (the
  address of the cell); the cell's \<^verbatim>\<open>Ref\<close> field lives in the store below. In the
  \<^verbatim>\<open>prolog\<close> package a procedure indicator is a Term as well (it is stored in a clause's
  \<^verbatim>\<open>xrTable\<close>). \<open>NilTerm\<close> is the nil interface value. A \<^verbatim>\<open>Float\<close> is kept as its 64 bits.
\<close>

datatype Term =
    Atom string
  | Integer int
  | Float "64 word"
  | Compound string "Term list"
  | Variable nat
  | PI procedureIndicator
  | NilTerm

text \<open>\<^verbatim>\<open>Cons\<close>, \<^verbatim>\<open>ListRest\<close> and \<^verbatim>\<open>List\<close> of compound.go.\<close>

definition Cons :: "Term \<Rightarrow> Term \<Rightarrow> Term" where
  "Cons car cdr = Compound ''.'' [car, cdr]"

definition ListRest :: "Term \<Rightarrow> Term list \<Rightarrow> Term" where
  "ListRest rest ts = foldr Cons ts rest"

definition List :: "Term list \<Rightarrow> Term" where
  "List ts = ListRest (Atom ''[]'') ts"

text \<open>
  Go errors. \<^verbatim>\<open>errors.New(msg)\<close> is \<open>ErrorsNew msg\<close>; \<^verbatim>\<open>fmt.Errorf(format, args...)\<close> is kept
  unrendered as \<open>FmtErrorf format args\<close>; an \<open>Exception\<close> carries a Prolog error term.
\<close>

datatype fmtarg = ArgTerm Term | ArgInt int | ArgString string | ArgSprintf string "fmtarg list"

datatype error = ErrorsNew string | FmtErrorf string "fmtarg list" | Exception Term

text \<open>
  Modelled from the spec: \<^verbatim>\<open>existenceErrorProcedure\<close> is not among the source files; the
  spec gives its result as \<^verbatim>\<open>existence_error(procedure, name/arity)\<close>.
\<close>

definition existenceErrorProcedure :: "Term \<Rightarrow> error" where
  "existenceErrorProcedure culprit =
     Exception (Compound ''existence_error'' [Atom ''procedure'', culprit])"

text \<open>
  Modelled from the spec: \<^verbatim>\<open>systemError\<close> is not among the source files; the spec names
  its result \<^verbatim>\<open>system_error\<close>, a Prolog-level error term, and says nothing of a payload.
\<close>

definition systemError :: "error \<Rightarrow> error" where
  "systemError err = Exception (Atom ''system_error'')"

text \<open>
  Modelled from the spec: \<^verbatim>\<open>typeErrorCallable\<close> is not among the source files; the spec
  gives its result as \<^verbatim>\<open>type_error(callable, T)\<close>.
\<close>

definition typeErrorCallable :: "Term \<Rightarrow> error" where
  "typeErrorCallable culprit =
     Exception (Compound ''type_error'' [Atom ''callable'', culprit])"

definition is_system_error :: "error \<Rightarrow> bool" where
  "is_system_error err = (err = Exception (Atom ''system_error''))"

subsection \<open>Clauses, procedures and closures\<close>

text \<open>The opcodes (\<^verbatim>\<open>iota\<close> constants of type byte) and \<^verbatim>\<open>type bytecode []byte\<close>.\<close>

type_synonym bytecode = "8 word list"

definition opVoid :: "8 word" where "opVoid = 0"
definition opEnter :: "8 word" where "opEnter = 1"
definition opCall :: "8 word" where "opCall = 2"
definition opExit :: "8 word" where "opExit = 3"
definition opConst :: "8 word" where "opConst = 4"
definition opVar :: "8 word" where "opVar = 5"
definition opFunctor :: "8 word" where "opFunctor = 6"
definition opPop :: "8 word" where "opPop = 7"

text \<open>\<^verbatim>\<open>type clause struct\<close>; \<open>vars\<close> holds the identities of the clause's variables.\<close>

record clause =
  pf :: procedureIndicator
  raw :: Term
  xrTable :: "Term list"
  vars :: "nat list"
  bytecode :: bytecode

text \<open>
  The implementations of the \<^verbatim>\<open>procedure\<close> interface: \<^verbatim>\<open>clauses\<close> and \<^verbatim>\<open>predicate0\<close> ..
  \<^verbatim>\<open>predicate5\<close>. A host function is a code pointer; it is kept as a handle, and what the
  function does is given by the \<open>host\<close> primitive below.
\<close>

datatype procedure =
    Clauses "clause list"
  | Predicate0 nat
  | Predicate1 nat
  | Predicate2 nat
  | Predicate3 nat
  | Predicate4 nat
  | Predicate5 nat

text \<open>
  The values of type \<^verbatim>\<open>func() Promise\<close>. Every function literal of the source is one
  constructor holding the variables the literal captures:
  \<^item> \<open>Done\<close>: the function \<^verbatim>\<open>Done\<close>;
  \<^item> \<open>ArriveCall p args k\<close>: the literal in \<^verbatim>\<open>arrive\<close>, \<^verbatim>\<open>p.Call(e, args, k)\<close>;
  \<^item> \<open>CallArrive pf astack k'\<close>: the outer literal of \<^verbatim>\<open>opCall\<close>, \<^verbatim>\<open>e.arrive(pf, astack, k')\<close>;
  \<^item> \<open>CallReturn pc xr vs k\<close>: the continuation literal of \<^verbatim>\<open>opCall\<close>, which declares a
    fresh \<^verbatim>\<open>v\<close> and delays the next literal;
  \<^item> \<open>CallResume pc xr vs k v\<close>: the innermost literal of \<^verbatim>\<open>opCall\<close>,
    \<^verbatim>\<open>e.exec(pc, xr, vars, k, &v, &v)\<close>;
  \<^item> \<open>ClauseAlt a c k args\<close>: the literal \<^verbatim>\<open>ks[i]\<close> of \<^verbatim>\<open>clauses.Call\<close>;
  \<^item> \<open>PredicateExit k\<close>: the literal of \<^verbatim>\<open>predicateN.Call\<close>,
    \<^verbatim>\<open>e.exec([]byte{opExit}, nil, nil, k, nil, nil)\<close>;
  \<^item> \<open>HostThunk h\<close>: a function value made by host code.
\<close>

datatype thunk =
    Done
  | ArriveCall procedure Term thunk
  | CallArrive procedureIndicator Term thunk
  | CallReturn bytecode "Term list" "nat list" thunk
  | CallResume bytecode "Term list" "nat list" thunk nat
  | ClauseAlt "nat list" clause thunk Term
  | PredicateExit thunk
  | HostThunk nat

text \<open>
  Modelled from the spec: \<^verbatim>\<open>Promise\<close>, \<^verbatim>\<open>Bool\<close>, \<^verbatim>\<open>Error\<close> and \<^verbatim>\<open>Delay\<close> are not among
  the source files. By section 4.5 of the spec a Promise is \<^verbatim>\<open>true\<close>, \<^verbatim>\<open>false\<close>,
  \<^verbatim>\<open>error(E)\<close> or a delayed list of alternatives, tried in order.
\<close>

datatype Promise = Bool bool | Error error | Delay "thunk list"

subsection \<open>The mutable world\<close>

text \<open>
  The record written by \<^verbatim>\<open>logrus.WithField(key, value).Warn(msg)\<close>.
\<close>

datatype log_entry = Warn string "(string \<times> Term) list"

text \<open>
  \<open>refs s v\<close> is the \<^verbatim>\<open>Ref\<close> field of the variable cell \<open>v\<close> (\<open>NilTerm\<close> while unbound),
  \<open>next_var\<close> the next cell to allocate, \<open>logged\<close> the log records written so far.
\<close>

record store =
  refs :: "nat \<Rightarrow> Term"
  next_var :: nat
  logged :: "log_entry list"

text \<open>A faulting Go operation, or a call that does not return.\<close>

datatype panic = NilMapAssignment | IndexOutOfRange | NilDereference | NoReturn

subsection \<open>The engine\<close>

text \<open>\<^verbatim>\<open>type unknownAction int\<close> with its three constants and its \<^verbatim>\<open>String\<close> method.\<close>

definition unknownError :: int where "unknownError = 0"
definition unknownFail :: int where "unknownFail = 1"
definition unknownWarning :: int where "unknownWarning = 2"

definition unknownAction_String :: "int \<Rightarrow> fmtarg" where
  "unknownAction_String u =
     (if u = unknownError then ArgString ''error''
      else if u = unknownFail then ArgString ''fail''
      else if u = unknownWarning then ArgString ''warning''
      else ArgSprintf ''unknown(%d)'' [ArgInt u])"

text \<open>
  The fields of \<^verbatim>\<open>Engine\<close> that dispatch reads. A Go map is nil (\<open>None\<close>) until it is
  allocated.
\<close>

record Engine =
  procedures :: "(procedureIndicator \<Rightarrow> procedure option) option"
  unknown :: int

definition zeroEngine :: Engine where
  "zeroEngine = \<lparr>procedures = None, unknown = 0\<rparr>"

text \<open>Reading a map: a nil map reads as empty. Writing one: a nil map faults.\<close>

definition map_index :: "('k \<Rightarrow> 'v option) option \<Rightarrow> 'k \<Rightarrow> 'v option" where
  "map_index m key = (case m of None \<Rightarrow> None | Some f \<Rightarrow> f key)"

definition map_assign ::
  "('k \<Rightarrow> 'v option) option \<Rightarrow> 'k \<Rightarrow> 'v \<Rightarrow> panic + ('k \<Rightarrow> 'v option) option" where
  "map_assign m key v =
     (case m of None \<Rightarrow> Inl NilMapAssignment | Some f \<Rightarrow> Inr (Some (f(key \<mapsto> v))))"

text \<open>
  \<^verbatim>\<open>Register0\<close> .. \<^verbatim>\<open>Register5\<close>. Each has the same two statements: \<open>allocate_procedures\<close>
  is \<^verbatim>\<open>if e.procedures == nil { e.procedures = map[procedureIndicator]procedure{} }\<close>, and
  \<open>register\<close> is the assignment \<^verbatim>\<open>e.procedures[key] = p\<close>. The host function \<open>p\<close> is given by
  its handle.
\<close>

definition allocate_procedures :: "Engine \<Rightarrow> Engine" where
  "allocate_procedures e =
     (if procedures e = None then e\<lparr>procedures := Some (\<lambda>_. None)\<rparr> else e)"

definition register :: "Engine \<Rightarrow> procedureIndicator \<Rightarrow> procedure \<Rightarrow> panic + Engine" where
  "register e key p =
     (case map_assign (procedures e) key p of
        Inl x \<Rightarrow> Inl x
      | Inr m \<Rightarrow> Inr (e\<lparr>procedures := m\<rparr>))"

definition Register0 :: "Engine \<Rightarrow> string \<Rightarrow> nat \<Rightarrow> panic + Engine" where
  "Register0 e nm p =
     register (allocate_procedures e) (ProcedureIndicator nm 0) (Predicate0 p)"

definition Register1 :: "Engine \<Rightarrow> string \<Rightarrow> nat \<Rightarrow> panic + Engine" where
  "Register1 e nm p =
     register (allocate_procedures e) (ProcedureIndicator nm 1) (Predicate1 p)"

definition Register2 :: "Engine \<Rightarrow> string \<Rightarrow> nat \<Rightarrow> panic + Engine" where
  "Register2 e nm p =
     register (allocate_procedures e) (ProcedureIndicator nm 2) (Predicate2 p)"

definition Register3 :: "Engine \<Rightarrow> string \<Rightarrow> nat \<Rightarrow> panic + Engine" where
  "Register3 e nm p =
     register (allocate_procedures e) (ProcedureIndicator nm 3) (Predicate3 p)"

definition Register4 :: "Engine \<Rightarrow> string \<Rightarrow> nat \<Rightarrow> panic + Engine" where
  "Register4 e nm p =
     register (allocate_procedures e) (ProcedureIndicator nm 4) (Predicate4 p)"

definition Register5 :: "Engine \<Rightarrow> string \<Rightarrow> nat \<Rightarrow> panic + Engine" where
  "Register5 e nm p =
     register (allocate_procedures e) (ProcedureIndicator nm 5) (Predicate5 p)"

text \<open>
  \<^verbatim>\<open>Engine.arrive\<close>. A key that is not in the table reads as nil. The switch on
  \<^verbatim>\<open>e.unknown\<close> keeps its case order; \<^verbatim>\<open>unknownWarning\<close> logs and falls through to the
  \<^verbatim>\<open>unknownFail\<close> case.
\<close>

definition arrive ::
  "Engine \<Rightarrow> procedureIndicator \<Rightarrow> Term \<Rightarrow> thunk \<Rightarrow> store \<Rightarrow> Promise \<times> store" where
  "arrive e ind args k s =
     (case map_index (procedures e) ind of
        None \<Rightarrow>
          (if unknown e = unknownError then
             (Error (existenceErrorProcedure
                       (Compound ''/'' [Atom (name ind), Integer (arity ind)])), s)
           else if unknown e = unknownWarning then
             (Bool False,
              s\<lparr>logged := logged s @ [Warn ''unknown procedure'' [(''procedure'', PI ind)]]\<rparr>)
           else if unknown e = unknownFail then (Bool False, s)
           else (Error (systemError
                   (FmtErrorf ''unknown unknown: %s'' [unknownAction_String (unknown e)])), s))
      | Some p \<Rightarrow> (Delay [ArriveCall p args k], s))"


section \<open>The abstract machine\<close>

text \<open>A variable declaration (\<^verbatim>\<open>var v Variable\<close>, \<^verbatim>\<open>&Variable{}\<close>) allocates an unbound cell.\<close>

definition newVariable :: "store \<Rightarrow> nat \<times> store" where
  "newVariable s =
     (next_var s, s\<lparr>refs := (refs s)(next_var s := NilTerm), next_var := Suc (next_var s)\<rparr>)"

fun newVariables :: "nat \<Rightarrow> store \<Rightarrow> nat list \<times> store" where
  "newVariables 0 s = ([], s)"
| "newVariables (Suc n) s =
     (let (v, s1) = newVariable s; (vs, s2) = newVariables n s1 in (v # vs, s2))"

text \<open>
  The functions of the repository that \<^verbatim>\<open>exec\<close> and the predicates call and that are not
  among the source files, taken as parameters:
  \<^item> \<open>Unify t u occursCheck\<close>: the method \<^verbatim>\<open>t.Unify(u, occursCheck)\<close> of the \<^verbatim>\<open>prolog\<close>
    package, which binds variable cells in place and returns a bool;
  \<^item> \<open>Functor\<close>, \<open>Univ\<close>: the builtins \<^verbatim>\<open>Functor(t, name, arity, k)\<close> and \<^verbatim>\<open>Univ(t, list, k)\<close>;
  \<^item> \<open>Force\<close>: \<^verbatim>\<open>Promise.Force()\<close>, returning \<^verbatim>\<open>(bool, error)\<close>;
  \<^item> \<open>host h args k\<close>: the host function with handle \<open>h\<close> applied to its arguments and
    continuation;
  \<^item> \<open>host_thunk h\<close>: calling a function value made by host code.
  Each may fault or not return (\<open>Inl\<close>).
\<close>

record prims =
  Unify :: "Term \<Rightarrow> Term \<Rightarrow> bool \<Rightarrow> store \<Rightarrow> panic + (bool \<times> store)"
  Functor :: "Term \<Rightarrow> Term \<Rightarrow> Term \<Rightarrow> thunk \<Rightarrow> store \<Rightarrow> panic + (Promise \<times> store)"
  Univ :: "Term \<Rightarrow> Term \<Rightarrow> thunk \<Rightarrow> store \<Rightarrow> panic + (Promise \<times> store)"
  Force :: "Promise \<Rightarrow> store \<Rightarrow> panic + ((bool \<times> error option) \<times> store)"
  host :: "nat \<Rightarrow> Term list \<Rightarrow> thunk \<Rightarrow> store \<Rightarrow> panic + (Promise \<times> store)"
  host_thunk :: "nat \<Rightarrow> store \<Rightarrow> panic + (Promise \<times> store)"

text \<open>A method call on the nil interface value faults before it is dispatched.\<close>

definition call_Unify ::
  "prims \<Rightarrow> Term \<Rightarrow> Term \<Rightarrow> bool \<Rightarrow> store \<Rightarrow> panic + (bool \<times> store)" where
  "call_Unify P t u occursCheck s =
     (if t = NilTerm then Inl NilDereference else Unify P t u occursCheck s)"

text \<open>\<^verbatim>\<open>Functor(...).Force()\<close> and \<^verbatim>\<open>Univ(...).Force()\<close>.\<close>

definition force_Functor ::
  "prims \<Rightarrow> Term \<Rightarrow> Term \<Rightarrow> Term \<Rightarrow> store \<Rightarrow> panic + ((bool \<times> error option) \<times> store)" where
  "force_Functor P t nm ar s =
     (case Functor P t nm ar Done s of Inl x \<Rightarrow> Inl x | Inr (p, s1) \<Rightarrow> Force P p s1)"

definition force_Univ ::
  "prims \<Rightarrow> Term \<Rightarrow> Term \<Rightarrow> store \<Rightarrow> panic + ((bool \<times> error option) \<times> store)" where
  "force_Univ P t l s =
     (case Univ P t l Done s of Inl x \<Rightarrow> Inl x | Inr (p, s1) \<Rightarrow> Force P p s1)"

text \<open>
  \<^verbatim>\<open>Engine.exec\<close>: the loop over the tape, one recursive call per iteration that goes on.
  The switch keeps its case order. \<^verbatim>\<open>pc[1]\<close>, \<^verbatim>\<open>xr[i]\<close> and \<^verbatim>\<open>vars[i]\<close> fault out of range.
\<close>

function exec ::
  "prims \<Rightarrow> bytecode \<Rightarrow> Term list \<Rightarrow> nat list \<Rightarrow> thunk \<Rightarrow> Term \<Rightarrow> Term \<Rightarrow> store
     \<Rightarrow> panic + (Promise \<times> store)" where
  "exec P [] xr vs k args astack s = Inr (Error (ErrorsNew ''non-exit end of bytecode''), s)"
| "exec P (opc # pc) xr vs k args astack s =
     (if opc = opVoid then exec P pc xr vs k args astack s
      else if opc = opConst then
        (case pc of
           [] \<Rightarrow> Inl IndexOutOfRange
         | i # pc' \<Rightarrow>
             if length xr \<le> unat i then Inl IndexOutOfRange
             else
               let x = xr ! unat i;
                   (arest, s1) = newVariable s;
                   cons = Compound ''.'' [x, Variable arest]
               in (case call_Unify P args cons False s1 of
                     Inl f \<Rightarrow> Inl f
                   | Inr (ok, s2) \<Rightarrow>
                       if \<not> ok then Inr (Bool False, s2)
                       else exec P pc' xr vs k (Variable arest) astack s2))
      else if opc = opVar then
        (case pc of
           [] \<Rightarrow> Inl IndexOutOfRange
         | i # pc' \<Rightarrow>
             if length vs \<le> unat i then Inl IndexOutOfRange
             else
               let v = vs ! unat i;
                   (arest, s1) = newVariable s;
                   cons = Compound ''.'' [Variable v, Variable arest]
               in (case call_Unify P args cons False s1 of
                     Inl f \<Rightarrow> Inl f
                   | Inr (ok, s2) \<Rightarrow>
                       if \<not> ok then Inr (Bool False, s2)
                       else exec P pc' xr vs k (Variable arest) astack s2))
      else if opc = opFunctor then
        (case pc of
           [] \<Rightarrow> Inl IndexOutOfRange
         | i # pc' \<Rightarrow>
             if length xr \<le> unat i then Inl IndexOutOfRange
             else
               let x = xr ! unat i;
                   (arg, s1) = newVariable s;
                   (arest, s2) = newVariable s1;
                   cons1 = Compound ''.'' [Variable arg, Variable arest]
               in (case call_Unify P args cons1 False s2 of
                     Inl f \<Rightarrow> Inl f
                   | Inr (ok, s3) \<Rightarrow>
                       if \<not> ok then Inr (Bool False, s3)
                       else (case x of
                         PI pfn \<Rightarrow>
                           (case force_Functor P (Variable arg) (Atom (name pfn))
                                   (Integer (arity pfn)) s3 of
                              Inl f \<Rightarrow> Inl f
                            | Inr ((ok1, Some err), s4) \<Rightarrow> Inr (Error err, s4)
                            | Inr ((ok1, None), s4) \<Rightarrow>
                                if \<not> ok1 then Inr (Bool False, s4)
                                else
                                  let (args', s5) = newVariable s4;
                                      cons2 = Compound ''.'' [Atom (name pfn), Variable args']
                                  in (case force_Univ P (Variable arg) cons2 s5 of
                                        Inl f \<Rightarrow> Inl f
                                      | Inr ((ok2, Some err), s6) \<Rightarrow> Inr (Error err, s6)
                                      | Inr ((ok2, None), s6) \<Rightarrow>
                                          if \<not> ok2 then Inr (Bool False, s6)
                                          else exec P pc' xr vs k (Variable args')
                                                 (Cons (Variable arest) astack) s6))
                       | _ \<Rightarrow> Inr (Error (ErrorsNew ''not a principal functor''), s3))))
      else if opc = opPop then
        (case call_Unify P args (List []) False s of
           Inl f \<Rightarrow> Inl f
         | Inr (ok, s1) \<Rightarrow>
             if \<not> ok then Inr (Bool False, s1)
             else
               let (a, s2) = newVariable s1;
                   (arest, s3) = newVariable s2;
                   cons = Compound ''.'' [Variable a, Variable arest]
               in (case call_Unify P astack cons False s3 of
                     Inl f \<Rightarrow> Inl f
                   | Inr (ok1, s4) \<Rightarrow>
                       if \<not> ok1 then Inr (Bool False, s4)
                       else exec P pc xr vs k (Variable a) (Variable arest) s4))
      else if opc = opEnter then
        (case call_Unify P args (List []) False s of
           Inl f \<Rightarrow> Inl f
         | Inr (ok, s1) \<Rightarrow>
             if \<not> ok then Inr (Bool False, s1)
             else (case call_Unify P astack (List []) False s1 of
                     Inl f \<Rightarrow> Inl f
                   | Inr (ok1, s2) \<Rightarrow>
                       if \<not> ok1 then Inr (Bool False, s2)
                       else
                         let (v, s3) = newVariable s2
                         in exec P pc xr vs k (Variable v) (Variable v) s3))
      else if opc = opCall then
        (case pc of
           [] \<Rightarrow> Inl IndexOutOfRange
         | i # pc' \<Rightarrow>
             if length xr \<le> unat i then Inl IndexOutOfRange
             else
               let x = xr ! unat i
               in (case call_Unify P args (List []) False s of
                     Inl f \<Rightarrow> Inl f
                   | Inr (ok, s1) \<Rightarrow>
                       if \<not> ok then Inr (Bool False, s1)
                       else (case x of
                         PI pfn \<Rightarrow> Inr (Delay [CallArrive pfn astack (CallReturn pc' xr vs k)], s1)
                       | _ \<Rightarrow> Inr (Error (ErrorsNew ''not a principal functor''), s1))))
      else if opc = opExit then Inr (Delay [k], s)
      else Inr (Error (FmtErrorf ''unknown(%d)'' [ArgInt (uint opc)]), s))"
  by pat_completeness auto
termination
  by (relation "measure (\<lambda>(P, pc, xr, vs, k, args, astack, s). length pc)") auto


subsection \<open>Assignments\<close>

text \<open>
  \<^verbatim>\<open>assignment.add\<close> follows \<^verbatim>\<open>Ref\<close> fields and descends into compounds, so it does not
  return on a cyclic store. The first argument bounds the depth of the Go recursion;
  \<open>None\<close> is a recursion deeper than that.
\<close>

fun add :: "nat \<Rightarrow> store \<Rightarrow> Term \<Rightarrow> nat list \<Rightarrow> nat list option"
  and add_args :: "nat \<Rightarrow> store \<Rightarrow> Term list \<Rightarrow> nat list \<Rightarrow> nat list option" where
  "add 0 s t a = None"
| "add (Suc d) s t a =
     (case t of
        Variable v \<Rightarrow>
          if refs s v \<noteq> NilTerm then add d s (refs s v) a
          else if v \<in> set a then Some a
          else Some (a @ [v])
      | Compound f ts \<Rightarrow> add_args d s ts a
      | _ \<Rightarrow> Some a)"
| "add_args d s [] a = Some a"
| "add_args d s (t # ts) a =
     (case add d s t a of None \<Rightarrow> None | Some a1 \<Rightarrow> add_args d s ts a1)"

definition newAssignment :: "nat \<Rightarrow> store \<Rightarrow> Term list \<Rightarrow> nat list option" where
  "newAssignment d s ts = add_args d s ts []"

text \<open>\<^verbatim>\<open>assignment.reset\<close>: every variable of the assignment becomes unbound.\<close>

fun reset :: "nat list \<Rightarrow> store \<Rightarrow> store" where
  "reset [] s = s"
| "reset (v # a) s = reset a (s\<lparr>refs := (refs s)(v := NilTerm)\<rparr>)"

definition contains :: "nat list \<Rightarrow> nat \<Rightarrow> bool" where
  "contains a v = (v \<in> set a)"

subsection \<open>Calling procedures\<close>

text \<open>
  \<^verbatim>\<open>clauses.Call\<close>. \<open>d\<close> bounds the recursion of \<^verbatim>\<open>newAssignment\<close> as above. The alternatives
  are the function literals \<^verbatim>\<open>ks[i]\<close>, one per clause, in the order of the clauses.
\<close>

definition clauses_Call ::
  "nat \<Rightarrow> clause list \<Rightarrow> Term \<Rightarrow> thunk \<Rightarrow> store \<Rightarrow> panic + (Promise \<times> store)" where
  "clauses_Call d cs args k s =
     (if length cs = 0 then Inr (Bool False, s)
      else (case newAssignment d s [args] of
              None \<Rightarrow> Inl NoReturn
            | Some a \<Rightarrow> Inr (Delay (map (\<lambda>c. ClauseAlt a c k args) cs), s)))"

text \<open>
  The body of the literal \<^verbatim>\<open>ks[i]\<close> up to its call of \<^verbatim>\<open>exec\<close>: \<^verbatim>\<open>a.reset()\<close>, then one
  fresh variable per slot of the clause.
\<close>

definition alternative_start :: "nat list \<Rightarrow> clause \<Rightarrow> store \<Rightarrow> nat list \<times> store" where
  "alternative_start a c s = newVariables (length (vars c)) (reset a s)"

text \<open>\<^verbatim>\<open>predicate0.Call\<close> .. \<^verbatim>\<open>predicate5.Call\<close>.\<close>

definition predicate0_Call ::
  "prims \<Rightarrow> nat \<Rightarrow> Term \<Rightarrow> thunk \<Rightarrow> store \<Rightarrow> panic + (Promise \<times> store)" where
  "predicate0_Call P p args k s =
     (case call_Unify P args (List []) False s of
        Inl f \<Rightarrow> Inl f
      | Inr (ok, s1) \<Rightarrow>
          if \<not> ok then Inr (Error (ErrorsNew ''wrong number of arguments''), s1)
          else host P p [] (PredicateExit k) s1)"

definition predicate1_Call ::
  "prims \<Rightarrow> nat \<Rightarrow> Term \<Rightarrow> thunk \<Rightarrow> store \<Rightarrow> panic + (Promise \<times> store)" where
  "predicate1_Call P p args k s =
     (let (v1, s1) = newVariable s
      in (case call_Unify P args (List [Variable v1]) False s1 of
            Inl f \<Rightarrow> Inl f
          | Inr (ok, s2) \<Rightarrow>
              if \<not> ok
              then Inr (Error (FmtErrorf ''wrong number of arguments: %s'' [ArgTerm args]), s2)
              else host P p [Variable v1] (PredicateExit k) s2))"

definition predicate2_Call ::
  "prims \<Rightarrow> nat \<Rightarrow> Term \<Rightarrow> thunk \<Rightarrow> store \<Rightarrow> panic + (Promise \<times> store)" where
  "predicate2_Call P p args k s =
     (let (v1, s1) = newVariable s;
          (v2, s2) = newVariable s1
      in (case call_Unify P args (List [Variable v1, Variable v2]) False s2 of
            Inl f \<Rightarrow> Inl f
          | Inr (ok, s3) \<Rightarrow>
              if \<not> ok then Inr (Error (ErrorsNew ''wrong number of arguments''), s3)
              else host P p [Variable v1, Variable v2] (PredicateExit k) s3))"

definition predicate3_Call ::
  "prims \<Rightarrow> nat \<Rightarrow> Term \<Rightarrow> thunk \<Rightarrow> store \<Rightarrow> panic + (Promise \<times> store)" where
  "predicate3_Call P p args k s =
     (let (v1, s1) = newVariable s;
          (v2, s2) = newVariable s1;
          (v3, s3) = newVariable s2
      in (case call_Unify P args (List [Variable v1, Variable v2, Variable v3]) False s3 of
            Inl f \<Rightarrow> Inl f
          | Inr (ok, s4) \<Rightarrow>
              if \<not> ok then Inr (Error (ErrorsNew ''wrong number of arguments''), s4)
              else host P p [Variable v1, Variable v2, Variable v3] (PredicateExit k) s4))"

definition predicate4_Call ::
  "prims \<Rightarrow> nat \<Rightarrow> Term \<Rightarrow> thunk \<Rightarrow> store \<Rightarrow> panic + (Promise \<times> store)" where
  "predicate4_Call P p args k s =
     (let (v1, s1) = newVariable s;
          (v2, s2) = newVariable s1;
          (v3, s3) = newVariable s2;
          (v4, s4) = newVariable s3
      in (case call_Unify P args
                 (List [Variable v1, Variable v2, Variable v3, Variable v4]) False s4 of
            Inl f \<Rightarrow> Inl f
          | Inr (ok, s5) \<Rightarrow>
              if \<not> ok then Inr (Error (ErrorsNew ''wrong number of arguments''), s5)
              else host P p [Variable v1, Variable v2, Variable v3, Variable v4]
                     (PredicateExit k) s5))"

definition predicate5_Call ::
  "prims \<Rightarrow> nat \<Rightarrow> Term \<Rightarrow> thunk \<Rightarrow> store \<Rightarrow> panic + (Promise \<times> store)" where
  "predicate5_Call P p args k s =
     (let (v1, s1) = newVariable s;
          (v2, s2) = newVariable s1;
          (v3, s3) = newVariable s2;
          (v4, s4) = newVariable s3;
          (v5, s5) = newVariable s4
      in (case call_Unify P args
                 (List [Variable v1, Variable v2, Variable v3, Variable v4, Variable v5])
                 False s5 of
            Inl f \<Rightarrow> Inl f
          | Inr (ok, s6) \<Rightarrow>
              if \<not> ok then Inr (Error (ErrorsNew ''wrong number of arguments''), s6)
              else host P p [Variable v1, Variable v2, Variable v3, Variable v4, Variable v5]
                     (PredicateExit k) s6))"

text \<open>The dynamic dispatch of \<^verbatim>\<open>p.Call(e, args, k)\<close> on the \<^verbatim>\<open>procedure\<close> interface.\<close>

definition procedure_Call ::
  "prims \<Rightarrow> nat \<Rightarrow> procedure \<Rightarrow> Term \<Rightarrow> thunk \<Rightarrow> store \<Rightarrow> panic + (Promise \<times> store)" where
  "procedure_Call P d p args k s =
     (case p of
        Clauses cs \<Rightarrow> clauses_Call d cs args k s
      | Predicate0 h \<Rightarrow> predicate0_Call P h args k s
      | Predicate1 h \<Rightarrow> predicate1_Call P h args k s
      | Predicate2 h \<Rightarrow> predicate2_Call P h args k s
      | Predicate3 h \<Rightarrow> predicate3_Call P h args k s
      | Predicate4 h \<Rightarrow> predicate4_Call P h args k s
      | Predicate5 h \<Rightarrow> predicate5_Call P h args k s)"

text \<open>
  Calling a value of type \<^verbatim>\<open>func() Promise\<close>: the body of the function literal that the
  constructor stands for, run on the engine \<open>e\<close> the literal captured.
\<close>

definition call_thunk ::
  "prims \<Rightarrow> nat \<Rightarrow> Engine \<Rightarrow> thunk \<Rightarrow> store \<Rightarrow> panic + (Promise \<times> store)" where
  "call_thunk P d e th s =
     (case th of
        Done \<Rightarrow> Inr (Bool True, s)
      | ArriveCall p args k \<Rightarrow> procedure_Call P d p args k s
      | CallArrive pfn astack k' \<Rightarrow> Inr (arrive e pfn astack k' s)
      | CallReturn pc xr vs k \<Rightarrow>
          (let (v, s1) = newVariable s in Inr (Delay [CallResume pc xr vs k v], s1))
      | CallResume pc xr vs k v \<Rightarrow> exec P pc xr vs k (Variable v) (Variable v) s
      | ClauseAlt a c k args \<Rightarrow>
          (let (vs, s1) = alternative_start a c s
           in exec P (bytecode c) (xrTable c) vs k args (List []) s1)
      | PredicateExit k \<Rightarrow> exec P [opExit] [] [] k NilTerm NilTerm s
      | HostThunk h \<Rightarrow> host_thunk P h s)"

section \<open>The clause compiler\<close>

text \<open>
  Modelled from the spec: the \<^verbatim>\<open>Unify\<close> methods of the \<^verbatim>\<open>prolog\<close> package are not among
  the source files. \<^verbatim>\<open>xrOffset\<close> calls \<^verbatim>\<open>r.Unify(o, false)\<close> only on the terms that the
  compiler stores in a constant table: atoms, integers, floats and procedure indicators.
  For these, rules 4 and 5 of section 4.1 of the spec apply: the same kind and exact
  equality, otherwise failure; no variable is bound.
\<close>

fun xrUnify :: "Term \<Rightarrow> Term \<Rightarrow> bool" where
  "xrUnify (Atom a) (Atom b) = (a = b)"
| "xrUnify (Integer a) (Integer b) = (a = b)"
| "xrUnify (Float a) (Float b) = (a = b)"
| "xrUnify (PI a) (PI b) = (a = b)"
| "xrUnify r o' = False"

text \<open>The search loops of \<^verbatim>\<open>xrOffset\<close> and \<^verbatim>\<open>varOffset\<close>: the first index that matches.\<close>

fun xrSearch :: "Term list \<Rightarrow> Term \<Rightarrow> nat \<Rightarrow> nat option" where
  "xrSearch [] o' i = None"
| "xrSearch (r # rs) o' i = (if xrUnify r o' then Some i else xrSearch rs o' (Suc i))"

fun varSearch :: "nat list \<Rightarrow> nat \<Rightarrow> nat \<Rightarrow> nat option" where
  "varSearch [] o' i = None"
| "varSearch (v # vs) o' i = (if v = o' then Some i else varSearch vs o' (Suc i))"

text \<open>
  \<^verbatim>\<open>clause.xrOffset\<close> and \<^verbatim>\<open>clause.varOffset\<close>. The conversion \<^verbatim>\<open>byte(i)\<close> keeps the low 8
  bits of \<open>i\<close>. The display name that \<^verbatim>\<open>varOffset\<close> clears is not part of a variable's
  identity and has no counterpart here.
\<close>

definition xrOffset :: "clause \<Rightarrow> Term \<Rightarrow> 8 word \<times> clause" where
  "xrOffset c o' =
     (case xrSearch (xrTable c) o' 0 of
        Some i \<Rightarrow> (of_nat i, c)
      | None \<Rightarrow>
          (let c1 = c\<lparr>xrTable := xrTable c @ [o']\<rparr>
           in (of_nat (length (xrTable c1) - 1), c1)))"

definition varOffset :: "clause \<Rightarrow> nat \<Rightarrow> 8 word \<times> clause" where
  "varOffset c o' =
     (case varSearch (vars c) o' 0 of
        Some i \<Rightarrow> (of_nat i, c)
      | None \<Rightarrow>
          (let c1 = c\<lparr>vars := vars c @ [o']\<rparr>
           in (of_nat (length (vars c1) - 1), c1)))"

definition emit :: "clause \<Rightarrow> 8 word list \<Rightarrow> clause" where
  "emit c bs = c\<lparr>bytecode := bytecode c @ bs\<rparr>"

text \<open>
  \<^verbatim>\<open>clause.compileArg\<close>, with the loop over the arguments of a compound as \<open>compileArgs\<close>.
  The result is the returned \<^verbatim>\<open>error\<close> (\<open>None\<close> for nil) and the clause as it was left.
\<close>

fun compileArg :: "clause \<Rightarrow> Term \<Rightarrow> error option \<times> clause"
  and compileArgs :: "clause \<Rightarrow> Term list \<Rightarrow> error option \<times> clause" where
  "compileArg c (Variable v) =
     (let (i, c1) = varOffset c v in (None, emit c1 [opVar, i]))"
| "compileArg c (Float x) =
     (let (i, c1) = xrOffset c (Float x) in (None, emit c1 [opConst, i]))"
| "compileArg c (Integer x) =
     (let (i, c1) = xrOffset c (Integer x) in (None, emit c1 [opConst, i]))"
| "compileArg c (Atom x) =
     (let (i, c1) = xrOffset c (Atom x) in (None, emit c1 [opConst, i]))"
| "compileArg c (Compound f ts) =
     (let (i, c1) = xrOffset c (PI (ProcedureIndicator f (int (length ts))))
      in (case compileArgs (emit c1 [opFunctor, i]) ts of
            (Some err, c2) \<Rightarrow> (Some err, c2)
          | (None, c2) \<Rightarrow> (None, emit c2 [opPop])))"
| "compileArg c (PI x) =
     (Some (systemError (FmtErrorf ''unknown argument: %s'' [ArgTerm (PI x)])), c)"
| "compileArg c NilTerm =
     (Some (systemError (FmtErrorf ''unknown argument: %s'' [ArgTerm NilTerm])), c)"
| "compileArgs c [] = (None, c)"
| "compileArgs c (t # ts) =
     (case compileArg c t of
        (Some err, c1) \<Rightarrow> (Some err, c1)
      | (None, c1) \<Rightarrow> compileArgs c1 ts)"

text \<open>\<^verbatim>\<open>clause.compilePred\<close>.\<close>

definition compilePred :: "clause \<Rightarrow> Term \<Rightarrow> error option \<times> clause" where
  "compilePred c p =
     (case p of
        Atom a \<Rightarrow>
          (let (i, c1) = xrOffset c (PI (ProcedureIndicator a 0))
           in (None, emit c1 [opCall, i]))
      | Compound f ts \<Rightarrow>
          (case compileArgs c ts of
             (Some err, c1) \<Rightarrow> (Some err, c1)
           | (None, c1) \<Rightarrow>
               (let (i, c2) = xrOffset c1 (PI (ProcedureIndicator f (int (length ts))))
                in (None, emit c2 [opCall, i])))
      | _ \<Rightarrow> (Some (typeErrorCallable p), c))"

text \<open>
  \<^verbatim>\<open>clause.compileClause\<close> in its three steps. \<open>compileHead\<close> is the switch on the head.
  \<open>compileBody\<close> is the \<^verbatim>\<open>for\<close> loop over the body, which goes on while the body is a
  compound with functor \<^verbatim>\<open>","\<close> and two arguments, and the call of \<^verbatim>\<open>compilePred\<close> that
  follows the loop.
\<close>

definition compileHead :: "clause \<Rightarrow> Term \<Rightarrow> error option \<times> clause" where
  "compileHead c head =
     (case head of
        Atom a \<Rightarrow> (None, c)
      | Compound f ts \<Rightarrow> compileArgs c ts
      | _ \<Rightarrow> (Some (typeErrorCallable head), c))"

fun compileBody :: "clause \<Rightarrow> Term \<Rightarrow> error option \<times> clause" where
  "compileBody c (Compound f [p0, p1]) =
     (if f \<noteq> '','' then compilePred c (Compound f [p0, p1])
      else (case compilePred c p0 of
              (Some err, c1) \<Rightarrow> (Some err, c1)
            | (None, c1) \<Rightarrow> compileBody c1 p1))"
| "compileBody c body = compilePred c body"

definition compileClause :: "clause \<Rightarrow> Term \<Rightarrow> Term \<Rightarrow> error option \<times> clause" where
  "compileClause c head body =
     (case compileHead c head of
        (Some err, c1) \<Rightarrow> (Some err, c1)
      | (None, c1) \<Rightarrow>
          if body \<noteq> NilTerm then
            (case compileBody (emit c1 [opEnter]) body of
               (Some err, c2) \<Rightarrow> (Some err, c2)
             | (None, c2) \<Rightarrow> (None, emit c2 [opExit]))
          else (None, emit c1 [opExit]))"


section \<open>Unification in the engine package\<close>

text \<open>
  compound.go belongs to the \<^verbatim>\<open>engine\<close> package, where bindings live in an environment
  that every unification takes and returns, and a variable is a value, not a cell.
\<close>

type_synonym Env = "nat \<Rightarrow> Term option"

text \<open>
  Modelled from the spec: \<^verbatim>\<open>Env.Resolve\<close> is not among the source files. By section 3 of
  the spec it follows bindings until it reaches a non-variable or an unbound variable.
  The first argument bounds the number of bindings followed; \<open>None\<close> is a longer chain.
\<close>

fun Resolve :: "nat \<Rightarrow> Env \<Rightarrow> Term \<Rightarrow> Term option" where
  "Resolve d env (Variable v) =
     (case env v of
        None \<Rightarrow> Some (Variable v)
      | Some t \<Rightarrow> (case d of 0 \<Rightarrow> None | Suc d' \<Rightarrow> Resolve d' env t))"
| "Resolve d env t = Some t"

text \<open>
  Modelled from the spec: the occurs check (\<^verbatim>\<open>Contains\<close>) is not among the source files.
  By rule 2 of section 4.1 it tells whether the resolved term contains the variable.
\<close>

function Contains :: "nat \<Rightarrow> Env \<Rightarrow> Term \<Rightarrow> nat \<Rightarrow> bool option"
  and Contains_args :: "nat \<Rightarrow> Env \<Rightarrow> Term list \<Rightarrow> nat \<Rightarrow> bool option" where
  "Contains 0 env t v = None"
| "Contains (Suc d) env t v =
     (case Resolve d env t of
        None \<Rightarrow> None
      | Some (Variable w) \<Rightarrow> Some (w = v)
      | Some (Compound f ts) \<Rightarrow> Contains_args d env ts v
      | Some _ \<Rightarrow> Some False)"
| "Contains_args d env [] v = Some False"
| "Contains_args d env (t # ts) v =
     (case Contains d env t v of
        None \<Rightarrow> None
      | Some True \<Rightarrow> Some True
      | Some False \<Rightarrow> Contains_args d env ts v)"
  by pat_completeness auto
termination
  by (relation "inv_image (less_than <*lex*> less_than) (\<lambda>x. case x of
         Inl (d, env, t, v) \<Rightarrow> (2 * d, 0)
       | Inr (d, env, ts, v) \<Rightarrow> (2 * d + 1, length ts))") auto

text \<open>
  The method \<^verbatim>\<open>Unify(t, occursCheck, env)\<close> of the \<^verbatim>\<open>Term\<close> interface, returning
  \<^verbatim>\<open>(*Env, bool)\<close>. A unification of cyclic terms does not return: the first argument
  bounds the depth of the calls, and \<open>None\<close> is a deeper recursion.

  \<open>Compound_Unify\<close> is \<^verbatim>\<open>Compound.Unify\<close> of compound.go, the receiver given by its functor
  and arguments; \<open>Compound_Unify_loop\<close> is its \<^verbatim>\<open>for\<close> loop over the argument pairs
  \<^verbatim>\<open>(c.Args[i], t.Args[i])\<close>, which run over the same indices once the lengths agree.

  Modelled from the spec: the \<^verbatim>\<open>Unify\<close> methods of the other terms are not among the
  source files; \<open>Term_Unify\<close> gives them by rules 1, 2, 4 and 5 of section 4.1. A variable
  resolves both sides and is bound to the other side unless it is that side or the occurs
  check finds it there; an atom, integer or float unifies with an equal term of its kind;
  everything else fails.
\<close>

function Term_Unify :: "nat \<Rightarrow> Term \<Rightarrow> Term \<Rightarrow> bool \<Rightarrow> Env \<Rightarrow> (Env \<times> bool) option"
  and Compound_Unify ::
    "nat \<Rightarrow> string \<Rightarrow> Term list \<Rightarrow> Term \<Rightarrow> bool \<Rightarrow> Env \<Rightarrow> (Env \<times> bool) option"
  and Compound_Unify_loop ::
    "nat \<Rightarrow> (Term \<times> Term) list \<Rightarrow> bool \<Rightarrow> Env \<Rightarrow> (Env \<times> bool) option" where
  "Term_Unify 0 x t occursCheck env = None"
| "Term_Unify (Suc d) x t occursCheck env =
     (case x of
        Compound f ts \<Rightarrow> Compound_Unify d f ts t occursCheck env
      | Variable v \<Rightarrow>
          (case Resolve d env (Variable v) of
             None \<Rightarrow> None
           | Some (Variable v') \<Rightarrow>
               (case Resolve d env t of
                  None \<Rightarrow> None
                | Some t' \<Rightarrow>
                    if t' = Variable v' then Some (env, True)
                    else if occursCheck then
                      (case Contains d env t' v' of
                         None \<Rightarrow> None
                       | Some True \<Rightarrow> Some (env, False)
                       | Some False \<Rightarrow> Some (env(v' \<mapsto> t'), True))
                    else Some (env(v' \<mapsto> t'), True))
           | Some r \<Rightarrow> Term_Unify d r t occursCheck env)
      | Atom a \<Rightarrow>
          (case Resolve d env t of
             None \<Rightarrow> None
           | Some (Atom b) \<Rightarrow> Some (env, a = b)
           | Some (Variable w) \<Rightarrow> Term_Unify d (Variable w) x occursCheck env
           | Some _ \<Rightarrow> Some (env, False))
      | Integer a \<Rightarrow>
          (case Resolve d env t of
             None \<Rightarrow> None
           | Some (Integer b) \<Rightarrow> Some (env, a = b)
           | Some (Variable w) \<Rightarrow> Term_Unify d (Variable w) x occursCheck env
           | Some _ \<Rightarrow> Some (env, False))
      | Float a \<Rightarrow>
          (case Resolve d env t of
             None \<Rightarrow> None
           | Some (Float b) \<Rightarrow> Some (env, a = b)
           | Some (Variable w) \<Rightarrow> Term_Unify d (Variable w) x occursCheck env
           | Some _ \<Rightarrow> Some (env, False))
      | _ \<Rightarrow> Some (env, False))"
| "Compound_Unify d f ts t occursCheck env =
     (case Resolve d env t of
        None \<Rightarrow> None
      | Some (Compound g us) \<Rightarrow>
          if f \<noteq> g then Some (env, False)
          else if length ts \<noteq> length us then Some (env, False)
          else Compound_Unify_loop d (zip ts us) occursCheck env
      | Some (Variable w) \<Rightarrow> Term_Unify d (Variable w) (Compound f ts) occursCheck env
      | Some _ \<Rightarrow> Some (env, False))"
| "Compound_Unify_loop d [] occursCheck env = Some (env, True)"
| "Compound_Unify_loop d ((a, b) # ps) occursCheck env =
     (case Term_Unify d a b occursCheck env of
        None \<Rightarrow> None
      | Some (env1, ok) \<Rightarrow>
          if \<not> ok then Some (env1, False)
          else Compound_Unify_loop d ps occursCheck env1)"
  by pat_completeness auto
termination
  by (relation "inv_image (less_than <*lex*> less_than) (\<lambda>x. case x of
         Inl (d, x, t, oc, env) \<Rightarrow> (3 * d, 0)
       | Inr (Inl (d, f, ts, t, oc, env)) \<Rightarrow> (3 * d + 2, 0)
       | Inr (Inr (d, ps, oc, env)) \<Rightarrow> (3 * d + 1, length ps))") auto

section \<open>Definitions for stating the properties\<close>

subsection \<open>Host predicate dispatch in the words of the specification\<close>

text \<open>
  Section 4.3 of the spec: a host predicate of arity \<open>n\<close> unifies the packed arguments with
  a list of \<open>n\<close> fresh variables and invokes the host function on those variables with a
  continuation that runs the program \<^verbatim>\<open>[exit]\<close>; when the unification fails the result is
  the error \<open>err\<close>.
\<close>

definition host_dispatch ::
  "nat \<Rightarrow> error \<Rightarrow> prims \<Rightarrow> nat \<Rightarrow> Term \<Rightarrow> thunk \<Rightarrow> store \<Rightarrow> panic + (Promise \<times> store)" where
  "host_dispatch n err P p args k s =
     (let (vs, s1) = newVariables n s
      in (case call_Unify P args (List (map Variable vs)) False s1 of
            Inl f \<Rightarrow> Inl f
          | Inr (ok, s2) \<Rightarrow>
              if ok then host P p (map Variable vs) (PredicateExit k) s2
              else Inr (Error err, s2)))"

subsection \<open>The conjunction spine of a clause body\<close>

text \<open>
  Section 4.2 of the spec: the goals of a body are the first arguments along its
  right-leaning spine of \<^verbatim>\<open>','/2\<close> compounds, followed by the final term. \<open>compilePreds\<close>
  compiles a list of goals from left to right and stops at the first error.
  \<open>goal_code c g\<close> is the code that compiling the goal \<open>g\<close> appends to the clause \<open>c\<close>, and
  \<open>goals_code\<close> the code of a list of goals, each compiled in the clause its predecessors
  left.
\<close>

fun spine :: "Term \<Rightarrow> Term list" where
  "spine (Compound f [p0, p1]) =
     (if f = '','' then p0 # spine p1 else [Compound f [p0, p1]])"
| "spine t = [t]"

fun compilePreds :: "clause \<Rightarrow> Term list \<Rightarrow> error option \<times> clause" where
  "compilePreds c [] = (None, c)"
| "compilePreds c (g # gs) =
     (case compilePred c g of
        (Some err, c1) \<Rightarrow> (Some err, c1)
      | (None, c1) \<Rightarrow> compilePreds c1 gs)"

definition goal_code :: "clause \<Rightarrow> Term \<Rightarrow> bytecode" where
  "goal_code c g = drop (length (bytecode c)) (bytecode (snd (compilePred c g)))"

fun goals_code :: "clause \<Rightarrow> Term list \<Rightarrow> bytecode" where
  "goals_code c [] = []"
| "goals_code c (g # gs) = goal_code c g @ goals_code (snd (compilePred c g)) gs"

text \<open>The code of \<open>n\<close> constants that take the table entries \<open>i\<close>, \<open>i + 1\<close>, ...\<close>

definition const_code :: "nat \<Rightarrow> nat \<Rightarrow> bytecode" where
  "const_code i n = concat (map (\<lambda>j. [opConst, of_nat j]) [i..<i + n])"

subsection \<open>The code of a clause as instructions\<close>

text \<open>
  The bytecode format of section 6 of the spec: an instruction is an opcode, followed by
  one operand byte for \<^verbatim>\<open>call\<close>, \<^verbatim>\<open>const\<close>, \<^verbatim>\<open>var\<close> and \<^verbatim>\<open>functor\<close>. An instruction with
  the table entry that its operand refers to in place of the operand:
\<close>

datatype instr =
    IVoid
  | IEnter
  | ICall procedureIndicator
  | IExit
  | IConst Term
  | IVar nat
  | IFunctor procedureIndicator
  | IPop

text \<open>
  \<open>decode xr vs pc\<close> reads the tape \<open>pc\<close> as instructions, looking every operand up in the
  constant table \<open>xr\<close> or the variable table \<open>vs\<close>. It is \<open>None\<close> when the tape ends inside
  an instruction, an operand is outside its table, the entry of a \<^verbatim>\<open>functor\<close> or \<^verbatim>\<open>call\<close>
  is not a procedure indicator, or an opcode is unknown.
\<close>

function decode :: "Term list \<Rightarrow> nat list \<Rightarrow> bytecode \<Rightarrow> instr list option" where
  "decode xr vs [] = Some []"
| "decode xr vs (opc # pc) =
     (if opc = opVoid then map_option ((#) IVoid) (decode xr vs pc)
      else if opc = opConst then
        (case pc of
           [] \<Rightarrow> None
         | i # pc' \<Rightarrow>
             if length xr \<le> unat i then None
             else map_option ((#) (IConst (xr ! unat i))) (decode xr vs pc'))
      else if opc = opVar then
        (case pc of
           [] \<Rightarrow> None
         | i # pc' \<Rightarrow>
             if length vs \<le> unat i then None
             else map_option ((#) (IVar (vs ! unat i))) (decode xr vs pc'))
      else if opc = opFunctor then
        (case pc of
           [] \<Rightarrow> None
         | i # pc' \<Rightarrow>
             if length xr \<le> unat i then None
             else (case xr ! unat i of
                     PI p \<Rightarrow> map_option ((#) (IFunctor p)) (decode xr vs pc')
                   | _ \<Rightarrow> None))
      else if opc = opPop then map_option ((#) IPop) (decode xr vs pc)
      else if opc = opEnter then map_option ((#) IEnter) (decode xr vs pc)
      else if opc = opCall then
        (case pc of
           [] \<Rightarrow> None
         | i # pc' \<Rightarrow>
             if length xr \<le> unat i then None
             else (case xr ! unat i of
                     PI p \<Rightarrow> map_option ((#) (ICall p)) (decode xr vs pc')
                   | _ \<Rightarrow> None))
      else if opc = opExit then map_option ((#) IExit) (decode xr vs pc)
      else None)"
  by pat_completeness auto
termination
  by (relation "measure (\<lambda>(xr, vs, pc). length pc)") auto

text \<open>
  The clause compiler in the words of section 4.2 of the spec, with the terms themselves
  in place of table indices: \<open>sym_arg\<close> is argument compilation, \<open>sym_pred\<close> goal
  compilation, \<open>sym_head\<close> head compilation and \<open>sym_clause\<close> the whole clause.
\<close>

fun sym_arg :: "Term \<Rightarrow> instr list"
  and sym_args :: "Term list \<Rightarrow> instr list" where
  "sym_arg (Variable v) = [IVar v]"
| "sym_arg (Compound f ts) =
     IFunctor (ProcedureIndicator f (int (length ts))) # sym_args ts @ [IPop]"
| "sym_arg t = [IConst t]"
| "sym_args [] = []"
| "sym_args (t # ts) = sym_arg t @ sym_args ts"

definition sym_pred :: "Term \<Rightarrow> instr list" where
  "sym_pred p =
     (case p of
        Atom a \<Rightarrow> [ICall (ProcedureIndicator a 0)]
      | Compound f ts \<Rightarrow> sym_args ts @ [ICall (ProcedureIndicator f (int (length ts)))]
      | _ \<Rightarrow> [])"

definition sym_head :: "Term \<Rightarrow> instr list" where
  "sym_head h = (case h of Compound f ts \<Rightarrow> sym_args ts | _ \<Rightarrow> [])"

definition sym_clause :: "Term \<Rightarrow> Term \<Rightarrow> instr list" where
  "sym_clause h body =
     sym_head h
     @ (if body \<noteq> NilTerm then IEnter # concat (map sym_pred (spine body)) else [])
     @ [IExit]"

text \<open>
  \<open>extends c c'\<close>: the tables of \<open>c'\<close> are those of \<open>c\<close> with entries added at the end.
  \<open>covers X V c\<close>: the tables \<open>X\<close> and \<open>V\<close> are those of \<open>c\<close> with entries added at the end.
  \<open>decodes_to X V bs ins\<close>: in the tables \<open>X\<close> and \<open>V\<close> the code \<open>bs\<close>, whatever follows
  it, reads as the instructions \<open>ins\<close>. \<open>compiled c c' ins\<close>: \<open>c'\<close> extends \<open>c\<close> by table
  entries and by code that, in all tables covering \<open>c'\<close>, reads as \<open>ins\<close>.
\<close>

definition extends :: "clause \<Rightarrow> clause \<Rightarrow> bool" where
  "extends c c' \<longleftrightarrow>
     (\<exists>xs. xrTable c' = xrTable c @ xs) \<and> (\<exists>ws. vars c' = vars c @ ws)"

definition covers :: "Term list \<Rightarrow> nat list \<Rightarrow> clause \<Rightarrow> bool" where
  "covers X V c \<longleftrightarrow> (\<exists>xs. X = xrTable c @ xs) \<and> (\<exists>ws. V = vars c @ ws)"

definition decodes_to :: "Term list \<Rightarrow> nat list \<Rightarrow> bytecode \<Rightarrow> instr list \<Rightarrow> bool" where
  "decodes_to X V bs ins \<longleftrightarrow>
     (\<forall>rest. decode X V (bs @ rest) =
        (case decode X V rest of None \<Rightarrow> None | Some js \<Rightarrow> Some (ins @ js)))"

definition compiled ::
  "clause \<Rightarrow> clause \<Rightarrow> instr list \<Rightarrow> bool" where
  "compiled c c' ins \<longleftrightarrow>
     extends c c'
     \<and> (\<exists>bs. bytecode c' = bytecode c @ bs
           \<and> (\<forall>X V. covers X V c' \<longrightarrow> decodes_to X V bs ins))"

subsection \<open>What is observable through a term\<close>

text \<open>
  The terms that can be reached from a term \<open>t\<close> in a store: \<open>t\<close> itself, the \<^verbatim>\<open>Ref\<close> of a
  bound variable that is reached, and the arguments of a compound that is reached. The
  bindings observable through \<open>t\<close> are the \<^verbatim>\<open>Ref\<close> fields of the variables reached from it.
\<close>

inductive_set reach :: "store \<Rightarrow> Term \<Rightarrow> Term set" for s :: store and t :: Term where
  reach_root: "t \<in> reach s t"
| reach_ref: "Variable v \<in> reach s t \<Longrightarrow> refs s v \<noteq> NilTerm \<Longrightarrow> refs s v \<in> reach s t"
| reach_arg: "Compound f ts \<in> reach s t \<Longrightarrow> u \<in> set ts \<Longrightarrow> u \<in> reach s t"

subsection \<open>Argument pairs unified in order\<close>

text \<open>
  Rule 3 of section 4.1 of the spec: the argument pairs unify from left to right, each in
  the environment that the pair before it returned. \<open>threaded d ps oc env env'\<close> says so
  for the pairs \<open>ps\<close>: there are environments \<open>es\<close>, one more than pairs, that start with
  \<open>env\<close> and end with \<open>env'\<close>, and the \<open>i\<close>-th pair unifies in \<open>es ! i\<close> and returns
  \<open>es ! (i + 1)\<close>.
\<close>

definition threaded ::
  "nat \<Rightarrow> (Term \<times> Term) list \<Rightarrow> bool \<Rightarrow> Env \<Rightarrow> Env \<Rightarrow> bool" where
  "threaded d ps oc env env' =
     (\<exists>es. length es = Suc (length ps) \<and> es ! 0 = env \<and> es ! length ps = env'
        \<and> (\<forall>i<length ps.
              Term_Unify d (fst (ps ! i)) (snd (ps ! i)) oc (es ! i) = Some (es ! Suc i, True)))"

subsection \<open>Concrete inputs\<close>

text \<open>A store with no variable bound, and a clause with empty tables and no code.\<close>

definition store0 :: store where
  "store0 = \<lparr>refs = (\<lambda>_. NilTerm), next_var = 0, logged = []\<rparr>"

definition emptyClause :: clause where
  "emptyClause =
     \<lparr>pf = ProcedureIndicator [] 0, raw = NilTerm, xrTable = [], vars = [], bytecode = []\<rparr>"

text \<open>
  Primitives to run the machine on concrete inputs. Unification follows section 4.1 of the
  spec (\<open>Term_Unify\<close> above, to depth 8) on the bindings of the store; the host functions
  succeed at once, as \<^verbatim>\<open>return k(env)\<close> does in the test of the repository; the builtins
  \<^verbatim>\<open>Functor\<close> and \<^verbatim>\<open>Univ\<close> are left out.
\<close>

definition env_of :: "store \<Rightarrow> Env" where
  "env_of s = (\<lambda>v. if refs s v = NilTerm then None else Some (refs s v))"

definition store_with :: "store \<Rightarrow> Env \<Rightarrow> store" where
  "store_with s env = s\<lparr>refs := (\<lambda>v. case env v of None \<Rightarrow> NilTerm | Some t \<Rightarrow> t)\<rparr>"

definition demo_Unify :: "Term \<Rightarrow> Term \<Rightarrow> bool \<Rightarrow> store \<Rightarrow> panic + (bool \<times> store)" where
  "demo_Unify t u oc s =
     (case Term_Unify 8 t u oc (env_of s) of
        None \<Rightarrow> Inl NoReturn
      | Some (env, ok) \<Rightarrow> Inr (ok, store_with s env))"

definition demo_prims :: prims where
  "demo_prims =
     \<lparr>Unify = demo_Unify,
      Functor = (\<lambda>t n a k s. Inl NoReturn),
      Univ = (\<lambda>t l k s. Inl NoReturn),
      Force = (\<lambda>p s. Inl NoReturn),
      host = (\<lambda>h ts k s. Inr (Delay [k], s)),
      host_thunk = (\<lambda>h s. Inl NoReturn)\<rparr>"

text \<open>The clause \<^verbatim>\<open>p(X, a) :- q(X), r, s.\<close> and its compiled form.\<close>

definition demo_head :: Term where
  "demo_head = Compound ''p'' [Variable 0, Atom ''a'']"

definition demo_body :: Term where
  "demo_body =
     Compound '','' [Compound ''q'' [Variable 0], Compound '','' [Atom ''r'', Atom ''s'']]"

definition demo_clause :: clause where
  "demo_clause =
     \<lparr>pf = ProcedureIndicator [] 0, raw = NilTerm,
      xrTable = [Atom ''a'', PI (ProcedureIndicator ''q'' 1),
                 PI (ProcedureIndicator ''r'' 0), PI (ProcedureIndicator ''s'' 0)],
      vars = [0], bytecode = [5, 0, 4, 0, 1, 5, 0, 2, 1, 2, 2, 2, 3, 3]\<rparr>"

text \<open>A fact whose head has 257 distinct integer arguments: \<^verbatim>\<open>f(0, 1, ..., 256).\<close>\<close>

definition wide_head :: Term where
  "wide_head = Compound ''f'' (map (\<lambda>n. Integer (int n)) [0..<257])"





section \<open>Auxiliary facts\<close>

lemmas op_defs =
  opVoid_def opEnter_def opCall_def opExit_def opConst_def opVar_def opFunctor_def opPop_def

subsection \<open>Allocation\<close>

lemma newVariables_Suc:
  "newVariables (Suc n) s =
     (next_var s # fst (newVariables n (snd (newVariable s))),
      snd (newVariables n (snd (newVariable s))))"
  by (simp add: newVariable_def case_prod_unfold Let_def)

lemma newVariables_fst: "fst (newVariables n s) = [next_var s..<next_var s + n]"
proof (induction n arbitrary: s)
  case 0
  then show ?case by simp
next
  case (Suc n)
  have "[next_var s..<next_var s + Suc n] = next_var s # [Suc (next_var s)..<Suc (next_var s) + n]"
    by (simp add: upt_conv_Cons del: upt_Suc)
  with Suc [of "snd (newVariable s)"] show ?case
    by (simp add: newVariables_Suc newVariable_def del: upt_Suc newVariables.simps)
qed

lemma newVariables_next: "next_var (snd (newVariables n s)) = next_var s + n"
proof (induction n arbitrary: s)
  case 0
  then show ?case by simp
next
  case (Suc n)
  from Suc [of "snd (newVariable s)"] show ?case
    by (simp add: newVariables_Suc newVariable_def del: newVariables.simps)
qed

lemma newVariables_refs:
  "refs (snd (newVariables n s)) v =
     (if next_var s \<le> v \<and> v < next_var s + n then NilTerm else refs s v)"
proof (induction n arbitrary: s)
  case 0
  then show ?case by auto
next
  case (Suc n)
  from Suc [of "snd (newVariable s)"] show ?case
    by (auto simp add: newVariables_Suc newVariable_def simp del: newVariables.simps)
qed

subsection \<open>The compiler appends to the code\<close>

lemma xrOffset_bytecode: "xrOffset c t = (i, c1) \<Longrightarrow> bytecode c1 = bytecode c"
  by (auto simp add: xrOffset_def Let_def split: option.splits)

lemma varOffset_bytecode: "varOffset c v = (i, c1) \<Longrightarrow> bytecode c1 = bytecode c"
  by (auto simp add: varOffset_def Let_def split: option.splits)

lemma bytecode_emit [simp]: "bytecode (emit c bs) = bytecode c @ bs"
  by (simp add: emit_def)

lemma compileArg_grows:
  "\<exists>bs. bytecode (snd (compileArg c t)) = bytecode c @ bs"
  "\<exists>bs. bytecode (snd (compileArgs c ts)) = bytecode c @ bs"
proof (induction c t and c ts rule: compileArg_compileArgs.induct)
  case (5 c f ts)
  obtain i c1 where x: "xrOffset c (PI (ProcedureIndicator f (int (length ts)))) = (i, c1)"
    by (cases "xrOffset c (PI (ProcedureIndicator f (int (length ts))))")
  from "5.IH" [OF refl x [symmetric]] obtain bs where
    "bytecode (snd (compileArgs (emit c1 [opFunctor, i]) ts)) =
       bytecode (emit c1 [opFunctor, i]) @ bs"
    by blast
  then show ?case
    using x xrOffset_bytecode [OF x] by (auto split: prod.splits option.splits)
next
  case (9 c t ts)
  then show ?case
    by (cases "compileArg c t") (auto split: option.splits)
qed (auto split: prod.splits dest: xrOffset_bytecode varOffset_bytecode)

lemma compilePred_grows: "\<exists>bs. bytecode (snd (compilePred c g)) = bytecode c @ bs"
proof (cases g)
  case (Compound f ts)
  obtain r c1 where a: "compileArgs c ts = (r, c1)" by (cases "compileArgs c ts")
  from compileArg_grows(2) [of c ts] a obtain bs where "bytecode c1 = bytecode c @ bs" by auto
  then show ?thesis
    using Compound a
    by (auto simp: compilePred_def split: prod.splits option.splits dest: xrOffset_bytecode)
qed (auto simp: compilePred_def split: prod.splits dest: xrOffset_bytecode)

lemma compileHead_grows: "\<exists>bs. bytecode (snd (compileHead c h)) = bytecode c @ bs"
  using compileArg_grows(2) by (cases h) (auto simp: compileHead_def)

lemma compilePred_code: "bytecode (snd (compilePred c g)) = bytecode c @ goal_code c g"
  using compilePred_grows [of c g] by (auto simp: goal_code_def)

lemma compilePreds_code:
  "compilePreds c gs = (None, c') \<Longrightarrow> bytecode c' = bytecode c @ goals_code c gs"
proof (induction gs arbitrary: c)
  case Nil
  then show ?case by simp
next
  case (Cons g gs)
  then show ?case
    using compilePred_code [of c g]
    by (cases "compilePred c g") (auto split: option.splits)
qed

lemma compileBody_spine: "compileBody c body = compilePreds c (spine body)"
proof (induction c body rule: compileBody.induct)
  case (1 c f p0 p1)
  then show ?case
    by (cases "compilePred c p0") (auto split: option.splits prod.splits)
qed (auto split: prod.splits option.splits)

lemma demo_compiles: "compileClause emptyClause demo_head demo_body = (None, demo_clause)"
  by code_simp

subsection \<open>Table offsets\<close>

lemma xrUnify_eq: "xrUnify r t \<Longrightarrow> r = t"
  by (induction r t rule: xrUnify.induct) simp_all

lemma xrSearch_Some:
  "xrSearch rs t i = Some j \<Longrightarrow> i \<le> j \<and> j - i < length rs \<and> rs ! (j - i) = t"
proof (induction rs arbitrary: i)
  case Nil
  then show ?case by simp
next
  case (Cons r rs)
  show ?case
  proof (cases "xrUnify r t")
    case True
    with Cons.prems show ?thesis by (simp add: xrUnify_eq)
  next
    case False
    with Cons.prems have "xrSearch rs t (Suc i) = Some j" by simp
    from Cons.IH [OF this] show ?thesis by (auto simp: Suc_diff_Suc less_eq_Suc_le)
  qed
qed

lemma xrSearch_None: "\<forall>r\<in>set rs. \<not> xrUnify r t \<Longrightarrow> xrSearch rs t i = None"
  by (induction rs arbitrary: i) simp_all

lemma varSearch_Some:
  "varSearch vs v i = Some j \<Longrightarrow> i \<le> j \<and> j - i < length vs \<and> vs ! (j - i) = v"
proof (induction vs arbitrary: i)
  case Nil
  then show ?case by simp
next
  case (Cons w vs)
  show ?case
  proof (cases "w = v")
    case True
    with Cons.prems show ?thesis by simp
  next
    case False
    with Cons.prems have "varSearch vs v (Suc i) = Some j" by simp
    from Cons.IH [OF this] show ?thesis by (auto simp: Suc_diff_Suc less_eq_Suc_le)
  qed
qed

lemma unat_byte: "n < 256 \<Longrightarrow> unat (of_nat n :: 8 word) = n"
  by (simp add: unat_of_nat take_bit_nat_eq_self)

lemma const_code_Suc: "const_code i (Suc n) = opConst # of_nat i # const_code (Suc i) n"
proof -
  have "[i..<i + Suc n] = i # [Suc i..<Suc i + n]"
    by (simp add: upt_conv_Cons del: upt_Suc)
  then show ?thesis by (simp add: const_code_def del: upt_Suc)
qed

lemma const_code_nth:
  "j < n \<Longrightarrow> const_code i n ! (2 * j) = opConst \<and> const_code i n ! (2 * j + 1) = of_nat (i + j)"
proof (induction n arbitrary: i j)
  case 0
  then show ?case by simp
next
  case (Suc n)
  show ?case
  proof (cases j)
    case 0
    then show ?thesis by (simp add: const_code_Suc)
  next
    case (Suc j')
    with Suc.prems have "j' < n" by simp
    from Suc.IH [OF this, of "Suc i"] Suc show ?thesis by (simp add: const_code_Suc)
  qed
qed

lemma const_code_length: "length (const_code i n) = 2 * n"
  by (induction n arbitrary: i) (simp_all add: const_code_Suc, simp add: const_code_def)

lemma compileArg_new_Integer:
  assumes "Integer n \<notin> set (xrTable c)"
  shows "compileArg c (Integer n) =
     (None, c\<lparr>xrTable := xrTable c @ [Integer n],
              bytecode := bytecode c @ [opConst, of_nat (length (xrTable c))]\<rparr>)"
proof -
  have "\<forall>r\<in>set (xrTable c). \<not> xrUnify r (Integer n)"
    using assms xrUnify_eq by blast
  then have "xrSearch (xrTable c) (Integer n) 0 = None" by (rule xrSearch_None)
  then show ?thesis by (simp add: xrOffset_def emit_def Let_def)
qed

lemma compileArgs_new_Integers:
  assumes "distinct ns" and "\<forall>n\<in>set ns. Integer n \<notin> set (xrTable c)"
  shows "compileArgs c (map Integer ns) =
     (None, c\<lparr>xrTable := xrTable c @ map Integer ns,
              bytecode := bytecode c @ const_code (length (xrTable c)) (length ns)\<rparr>)"
  using assms
proof (induction ns arbitrary: c)
  case Nil
  then show ?case by (simp add: const_code_def)
next
  case (Cons n ns)
  let ?c1 = "c\<lparr>xrTable := xrTable c @ [Integer n],
                bytecode := bytecode c @ [opConst, of_nat (length (xrTable c))]\<rparr>"
  have 1: "compileArg c (Integer n) = (None, ?c1)"
    using Cons.prems by (intro compileArg_new_Integer) simp
  have 2: "compileArgs ?c1 (map Integer ns) =
     (None, ?c1\<lparr>xrTable := xrTable ?c1 @ map Integer ns,
              bytecode := bytecode ?c1 @ const_code (length (xrTable ?c1)) (length ns)\<rparr>)"
    using Cons.prems by (intro Cons.IH) auto
  show ?case using 1 2 by (simp add: const_code_Suc)
qed

subsection \<open>Registration and host predicates\<close>

lemma allocate_register_arrive:
  "\<exists>e'. register (allocate_procedures e) key p = Inr e'
      \<and> arrive e' key args k s = (Delay [ArriveCall p args k], s)"
  by (cases "procedures e")
     (simp_all add: register_def allocate_procedures_def map_assign_def arrive_def map_index_def)

lemma predicate_Call_dispatch:
  "predicate0_Call P p args k s =
     host_dispatch 0 (ErrorsNew ''wrong number of arguments'') P p args k s"
  "predicate1_Call P p args k s =
     host_dispatch 1 (FmtErrorf ''wrong number of arguments: %s'' [ArgTerm args]) P p args k s"
  "predicate2_Call P p args k s =
     host_dispatch 2 (ErrorsNew ''wrong number of arguments'') P p args k s"
  "predicate3_Call P p args k s =
     host_dispatch 3 (ErrorsNew ''wrong number of arguments'') P p args k s"
  "predicate4_Call P p args k s =
     host_dispatch 4 (ErrorsNew ''wrong number of arguments'') P p args k s"
  "predicate5_Call P p args k s =
     host_dispatch 5 (ErrorsNew ''wrong number of arguments'') P p args k s"
  by (simp_all add: predicate0_Call_def predicate1_Call_def predicate2_Call_def
        predicate3_Call_def predicate4_Call_def predicate5_Call_def host_dispatch_def
        eval_nat_numeral split: prod.splits sum.splits)

lemma exec_void_tape:
  "exec P (replicate n opVoid) xr vs k args astack s =
     Inr (Error (ErrorsNew ''non-exit end of bytecode''), s)"
  by (induction n) simp_all

subsection \<open>Unification on concrete inputs\<close>

lemma demo_Unify_nil:
  "call_Unify demo_prims (List []) (List []) False store0 = Inr (True, store0)"
  by (simp add: call_Unify_def demo_prims_def demo_Unify_def List_def ListRest_def
        eval_nat_numeral env_of_def store_with_def store0_def)

lemma demo_newVariables_1:
  "newVariables 1 store0 = ([0], store0\<lparr>next_var := 1\<rparr>)"
  by (simp add: eval_nat_numeral newVariable_def store0_def fun_eq_iff)

lemma demo_Unify_wrong_arity:
  "call_Unify demo_prims (List []) (List [Variable 0]) False (store0\<lparr>next_var := 1\<rparr>) =
     Inr (False, store0\<lparr>next_var := 1\<rparr>)"
  by (simp add: call_Unify_def demo_prims_def demo_Unify_def List_def ListRest_def Cons_def
        eval_nat_numeral env_of_def store_with_def store0_def)

lemma demo_Unify_right_arity:
  "call_Unify demo_prims (List [Atom ''a'']) (List [Variable 0]) False (store0\<lparr>next_var := 1\<rparr>) =
     Inr (True, store0\<lparr>refs := (\<lambda>_. NilTerm)(0 := Atom ''a''), next_var := 1\<rparr>)"
  by (simp add: call_Unify_def demo_prims_def demo_Unify_def List_def ListRest_def Cons_def
        eval_nat_numeral env_of_def store_with_def store0_def fun_eq_iff)

subsection \<open>Reachability and assignments\<close>

lemma reach_trans: "w \<in> reach s u \<Longrightarrow> u \<in> reach s t \<Longrightarrow> w \<in> reach s t"
  by (induction rule: reach.induct) (auto intro: reach.intros)








lemma Term_Unify_8:
  "Term_Unify 8 = Term_Unify (Suc (Suc (Suc (Suc (Suc (Suc (Suc (Suc 0))))))))"
  by (simp add: eval_nat_numeral)



subsection \<open>The loop over the argument pairs\<close>

lemma threaded_Nil: "threaded d [] oc env env' = (env' = env)"
proof
  assume "threaded d [] oc env env'"
  then show "env' = env" by (auto simp: threaded_def)
next
  assume "env' = env"
  then show "threaded d [] oc env env'"
    unfolding threaded_def by (intro exI [of _ "[env]"]) simp
qed

lemma threaded_Cons:
  "threaded d ((a, b) # ps) oc env env' =
     (\<exists>env1. Term_Unify d a b oc env = Some (env1, True) \<and> threaded d ps oc env1 env')"
proof
  assume "threaded d ((a, b) # ps) oc env env'"
  then obtain es where es: "length es = Suc (Suc (length ps))" "es ! 0 = env"
      "es ! Suc (length ps) = env'"
      and st: "\<forall>i<Suc (length ps).
         Term_Unify d (fst (((a, b) # ps) ! i)) (snd (((a, b) # ps) ! i)) oc (es ! i)
           = Some (es ! Suc i, True)"
    by (auto simp: threaded_def)
  from es(1) obtain e0 es' where e: "es = e0 # es'" by (cases es) auto
  from st have "Term_Unify d a b oc (es ! 0) = Some (es ! Suc 0, True)" by fastforce
  with es(2) e have first: "Term_Unify d a b oc env = Some (es' ! 0, True)" by simp
  have "\<forall>i<length ps. Term_Unify d (fst (ps ! i)) (snd (ps ! i)) oc (es' ! i)
           = Some (es' ! Suc i, True)"
  proof (intro allI impI)
    fix i assume "i < length ps"
    then have "Suc i < Suc (length ps)" by simp
    with st have "Term_Unify d (fst (((a, b) # ps) ! Suc i)) (snd (((a, b) # ps) ! Suc i)) oc
         (es ! Suc i) = Some (es ! Suc (Suc i), True)" by blast
    with e show "Term_Unify d (fst (ps ! i)) (snd (ps ! i)) oc (es' ! i)
           = Some (es' ! Suc i, True)" by simp
  qed
  with es e have "threaded d ps oc (es' ! 0) env'"
    unfolding threaded_def by (intro exI [of _ es']) simp
  with first show "\<exists>env1. Term_Unify d a b oc env = Some (env1, True) \<and> threaded d ps oc env1 env'"
    by blast
next
  assume "\<exists>env1. Term_Unify d a b oc env = Some (env1, True) \<and> threaded d ps oc env1 env'"
  then obtain env1 es' where first: "Term_Unify d a b oc env = Some (env1, True)"
    and es': "length es' = Suc (length ps)" "es' ! 0 = env1" "es' ! length ps = env'"
    and st: "\<forall>i<length ps. Term_Unify d (fst (ps ! i)) (snd (ps ! i)) oc (es' ! i)
           = Some (es' ! Suc i, True)"
    by (auto simp: threaded_def)
  have "\<forall>i<length ((a, b) # ps).
         Term_Unify d (fst (((a, b) # ps) ! i)) (snd (((a, b) # ps) ! i)) oc ((env # es') ! i)
           = Some ((env # es') ! Suc i, True)"
  proof (intro allI impI)
    fix i assume i: "i < length ((a, b) # ps)"
    show "Term_Unify d (fst (((a, b) # ps) ! i)) (snd (((a, b) # ps) ! i)) oc ((env # es') ! i)
           = Some ((env # es') ! Suc i, True)"
    proof (cases i)
      case 0
      with first es' show ?thesis by simp
    next
      case (Suc j)
      with i st show ?thesis by simp
    qed
  qed
  with es' show "threaded d ((a, b) # ps) oc env env'"
    unfolding threaded_def by (intro exI [of _ "env # es'"]) simp
qed

lemma loop_succeeds_iff:
  "Compound_Unify_loop d ps oc env = Some (env', True) \<longleftrightarrow> threaded d ps oc env env'"
proof (induction ps arbitrary: env)
  case Nil
  then show ?case by (auto simp: threaded_Nil)
next
  case (Cons p ps)
  obtain a b where p: "p = (a, b)" by (cases p)
  show ?case
    unfolding p threaded_Cons
    using Cons.IH by (auto split: option.splits)
qed

lemma loop_short_circuit:
  "Compound_Unify_loop d ps1 oc env = Some (env1, True) \<Longrightarrow>
   Term_Unify d a b oc env1 = Some (env2, False) \<Longrightarrow>
   Compound_Unify_loop d (ps1 @ (a, b) # ps2) oc env = Some (env2, False)"
proof (induction ps1 arbitrary: env)
  case Nil
  then show ?case by simp
next
  case (Cons p ps1)
  obtain x y where p: "p = (x, y)" by (cases p)
  from Cons.prems(1) obtain e1 where "Term_Unify d x y oc env = Some (e1, True)"
    and "Compound_Unify_loop d ps1 oc e1 = Some (env1, True)"
    by (auto simp: p split: option.splits if_splits)
  with Cons.IH [OF _ Cons.prems(2)] show ?case by (simp add: p)
qed

lemma demo_Unify_first:
  "Term_Unify 8 (Variable 0) (Atom ''a'') False Map.empty = Some ([0 \<mapsto> Atom ''a''], True)"
  by (simp add: Term_Unify_8)

lemma demo_Unify_second:
  "Term_Unify 8 (Atom ''b'') (Atom ''c'') False [0 \<mapsto> Atom ''a''] =
     Some ([0 \<mapsto> Atom ''a''], False)"
  by (simp add: Term_Unify_8)

subsection \<open>Decoding compiled code\<close>

lemma extends_refl [simp]: "extends c c"
  by (simp add: extends_def)

lemma extends_trans: "extends a b \<Longrightarrow> extends b c \<Longrightarrow> extends a c"
  by (auto simp: extends_def)

lemma extends_emit [simp]: "extends c (emit c' bs) = extends c c'" "extends (emit c bs) c' = extends c c'"
  by (simp_all add: extends_def emit_def)

lemma extends_length:
  "extends c c' \<Longrightarrow> length (xrTable c) \<le> length (xrTable c') \<and> length (vars c) \<le> length (vars c')"
  by (auto simp: extends_def)

lemma covers_extends: "extends c c' \<Longrightarrow> covers X V c' \<Longrightarrow> covers X V c"
  by (auto simp: covers_def extends_def)

lemma covers_emit [simp]: "covers X V (emit c bs) = covers X V c"
  by (simp add: covers_def emit_def)

lemma xrOffset_index:
  assumes "xrOffset c t = (b, c')" and "length (xrTable c') \<le> 256"
  shows "unat b < length (xrTable c') \<and> xrTable c' ! unat b = t \<and> extends c c'
     \<and> bytecode c' = bytecode c"
proof (cases "xrSearch (xrTable c) t 0")
  case None
  with assms have c': "c' = c\<lparr>xrTable := xrTable c @ [t]\<rparr>" and b: "b = of_nat (length (xrTable c))"
    by (auto simp: xrOffset_def Let_def)
  from assms c' have "length (xrTable c) < 256" by simp
  then have "unat b = length (xrTable c)" using b by (simp add: unat_byte)
  with c' show ?thesis by (simp add: extends_def)
next
  case (Some j)
  with assms have c': "c' = c" and b: "b = of_nat j" by (auto simp: xrOffset_def)
  from xrSearch_Some [OF Some] have j: "j < length (xrTable c)" "xrTable c ! j = t" by auto
  with assms c' have "j < 256" by simp
  then have "unat b = j" using b by (simp add: unat_byte)
  with c' j show ?thesis by simp
qed

lemma varOffset_index:
  assumes "varOffset c v = (b, c')" and "length (vars c') \<le> 256"
  shows "unat b < length (vars c') \<and> vars c' ! unat b = v \<and> extends c c'
     \<and> bytecode c' = bytecode c"
proof (cases "varSearch (vars c) v 0")
  case None
  with assms have c': "c' = c\<lparr>vars := vars c @ [v]\<rparr>" and b: "b = of_nat (length (vars c))"
    by (auto simp: varOffset_def Let_def)
  from assms c' have "length (vars c) < 256" by simp
  then have "unat b = length (vars c)" using b by (simp add: unat_byte)
  with c' show ?thesis by (simp add: extends_def)
next
  case (Some j)
  with assms have c': "c' = c" and b: "b = of_nat j" by (auto simp: varOffset_def)
  from varSearch_Some [OF Some] have j: "j < length (vars c)" "vars c ! j = v" by auto
  with assms c' have "j < 256" by simp
  then have "unat b = j" using b by (simp add: unat_byte)
  with c' j show ?thesis by simp
qed

lemma xrOffset_extends: "xrOffset c t = (b, c') \<Longrightarrow> extends c c'"
  by (auto simp: xrOffset_def Let_def extends_def split: option.splits)

lemma varOffset_extends: "varOffset c v = (b, c') \<Longrightarrow> extends c c'"
  by (auto simp: varOffset_def Let_def extends_def split: option.splits)

lemma covers_xr: "covers X V c \<Longrightarrow> i < length (xrTable c) \<Longrightarrow> i < length X \<and> X ! i = xrTable c ! i"
  by (auto simp: covers_def nth_append)

lemma covers_var: "covers X V c \<Longrightarrow> i < length (vars c) \<Longrightarrow> i < length V \<and> V ! i = vars c ! i"
  by (auto simp: covers_def nth_append)

lemma decodes_to_Nil [simp]: "decodes_to X V [] []"
  by (simp add: decodes_to_def split: option.splits)

lemma decodes_to_append:
  "decodes_to X V bs ins \<Longrightarrow> decodes_to X V bs' ins' \<Longrightarrow> decodes_to X V (bs @ bs') (ins @ ins')"
  by (simp add: decodes_to_def split: option.splits)

lemma decodes_to_const:
  "unat i < length X \<Longrightarrow> decodes_to X V [opConst, i] [IConst (X ! unat i)]"
  by (simp add: decodes_to_def op_defs split: option.splits)

lemma decodes_to_var:
  "unat i < length V \<Longrightarrow> decodes_to X V [opVar, i] [IVar (V ! unat i)]"
  by (simp add: decodes_to_def op_defs split: option.splits)

lemma decodes_to_functor:
  "unat i < length X \<Longrightarrow> X ! unat i = PI p \<Longrightarrow> decodes_to X V [opFunctor, i] [IFunctor p]"
  by (simp add: decodes_to_def op_defs split: option.splits)

lemma decodes_to_call:
  "unat i < length X \<Longrightarrow> X ! unat i = PI p \<Longrightarrow> decodes_to X V [opCall, i] [ICall p]"
  by (simp add: decodes_to_def op_defs split: option.splits)

lemma decodes_to_simple:
  "decodes_to X V [opPop] [IPop]" "decodes_to X V [opEnter] [IEnter]"
  "decodes_to X V [opExit] [IExit]"
  by (simp_all add: decodes_to_def op_defs split: option.splits)

lemma decodes_to_whole: "decodes_to X V bs ins \<Longrightarrow> decode X V bs = Some ins"
  using decodes_to_def [of X V bs ins] by (auto dest: spec [of _ "[]"])

lemma const_piece:
  assumes "xrOffset c t = (i, c1)" and "length (xrTable c1) \<le> 256" and "covers X V c1"
  shows "decodes_to X V [opConst, i] [IConst t]"
proof -
  from xrOffset_index [OF assms(1,2)] have "unat i < length (xrTable c1)" "xrTable c1 ! unat i = t"
    by auto
  with covers_xr [OF assms(3)] have "unat i < length X" "X ! unat i = t" by auto
  with decodes_to_const [of i X V] show ?thesis by simp
qed

lemma var_piece:
  assumes "varOffset c v = (i, c1)" and "length (vars c1) \<le> 256" and "covers X V c1"
  shows "decodes_to X V [opVar, i] [IVar v]"
proof -
  from varOffset_index [OF assms(1,2)] have "unat i < length (vars c1)" "vars c1 ! unat i = v"
    by auto
  with covers_var [OF assms(3)] have "unat i < length V" "V ! unat i = v" by auto
  with decodes_to_var [of i V X] show ?thesis by simp
qed

lemma functor_piece:
  assumes "xrOffset c (PI p) = (i, c1)" and "length (xrTable c1) \<le> 256" and "covers X V c1"
  shows "decodes_to X V [opFunctor, i] [IFunctor p]" "decodes_to X V [opCall, i] [ICall p]"
proof -
  from xrOffset_index [OF assms(1,2)]
  have "unat i < length (xrTable c1)" "xrTable c1 ! unat i = PI p"
    by auto
  with covers_xr [OF assms(3)] have *: "unat i < length X" "X ! unat i = PI p" by auto
  from * show "decodes_to X V [opFunctor, i] [IFunctor p]" by (rule decodes_to_functor)
  from * show "decodes_to X V [opCall, i] [ICall p]" by (rule decodes_to_call)
qed

lemma compiled_refl: "compiled c c []"
  by (simp add: compiled_def)

lemma compiled_trans:
  assumes "compiled c c1 ins1" and "compiled c1 c2 ins2"
  shows "compiled c c2 (ins1 @ ins2)"
proof -
  from assms obtain bs1 bs2 where e: "extends c c1" "extends c1 c2"
    and b: "bytecode c1 = bytecode c @ bs1" "bytecode c2 = bytecode c1 @ bs2"
    and d1: "\<And>X V. covers X V c1 \<Longrightarrow> decodes_to X V bs1 ins1"
    and d2: "\<And>X V. covers X V c2 \<Longrightarrow> decodes_to X V bs2 ins2"
    by (auto simp: compiled_def)
  have "decodes_to X V (bs1 @ bs2) (ins1 @ ins2)" if "covers X V c2" for X V
    using d1 [OF covers_extends [OF e(2) that]] d2 [OF that] by (rule decodes_to_append)
  with e b show ?thesis by (auto simp: compiled_def intro: extends_trans)
qed

lemma compiled_emit:
  assumes "extends c c1" and "bytecode c1 = bytecode c"
    and "\<And>X V. covers X V c1 \<Longrightarrow> decodes_to X V bs ins"
  shows "compiled c (emit c1 bs) ins"
  using assms by (auto simp: compiled_def)

lemma compileArg_compiled:
  "compileArg c t = (None, c') \<Longrightarrow> length (xrTable c') \<le> 256 \<Longrightarrow> length (vars c') \<le> 256
     \<Longrightarrow> compiled c c' (sym_arg t)"
  "compileArgs c ts = (None, c') \<Longrightarrow> length (xrTable c') \<le> 256 \<Longrightarrow> length (vars c') \<le> 256
     \<Longrightarrow> compiled c c' (sym_args ts)"
proof (induction c t and c ts arbitrary: c' and c' rule: compileArg_compileArgs.induct)
  case (1 c v)
  obtain i c1 where o: "varOffset c v = (i, c1)" by (cases "varOffset c v")
  with "1.prems" have c': "c' = emit c1 [opVar, i]" by simp
  with "1.prems" have l: "length (vars c1) \<le> 256" by (simp add: emit_def)
  from varOffset_index [OF o l] var_piece [OF o l] show ?case
    unfolding c' by (intro compiled_emit) auto
next
  case (2 c x)
  obtain i c1 where o: "xrOffset c (Float x) = (i, c1)" by (cases "xrOffset c (Float x)")
  with "2.prems" have c': "c' = emit c1 [opConst, i]" by simp
  with "2.prems" have l: "length (xrTable c1) \<le> 256" by (simp add: emit_def)
  from xrOffset_index [OF o l] const_piece [OF o l] show ?case
    unfolding c' by (intro compiled_emit) auto
next
  case (3 c x)
  obtain i c1 where o: "xrOffset c (Integer x) = (i, c1)" by (cases "xrOffset c (Integer x)")
  with "3.prems" have c': "c' = emit c1 [opConst, i]" by simp
  with "3.prems" have l: "length (xrTable c1) \<le> 256" by (simp add: emit_def)
  from xrOffset_index [OF o l] const_piece [OF o l] show ?case
    unfolding c' by (intro compiled_emit) auto
next
  case (4 c x)
  obtain i c1 where o: "xrOffset c (Atom x) = (i, c1)" by (cases "xrOffset c (Atom x)")
  with "4.prems" have c': "c' = emit c1 [opConst, i]" by simp
  with "4.prems" have l: "length (xrTable c1) \<le> 256" by (simp add: emit_def)
  from xrOffset_index [OF o l] const_piece [OF o l] show ?case
    unfolding c' by (intro compiled_emit) auto
next
  case (5 c f ts)
  let ?p = "ProcedureIndicator f (int (length ts))"
  obtain i c1 where o: "xrOffset c (PI ?p) = (i, c1)" by (cases "xrOffset c (PI ?p)")
  obtain r c2 where a: "compileArgs (emit c1 [opFunctor, i]) ts = (r, c2)"
    by (cases "compileArgs (emit c1 [opFunctor, i]) ts")
  from "5.prems"(1) o a have r: "r = None" and c': "c' = emit c2 [opPop]"
    by (auto split: option.splits)
  from "5.prems" c' have l2: "length (xrTable c2) \<le> 256" "length (vars c2) \<le> 256"
    by (simp_all add: emit_def)
  from "5.IH" [OF refl o [symmetric] a [unfolded r] l2]
  have mid: "compiled (emit c1 [opFunctor, i]) c2 (sym_args ts)" .
  then have "extends c1 c2" by (simp add: compiled_def)
  with l2 have l1: "length (xrTable c1) \<le> 256" using extends_length by fastforce
  from xrOffset_index [OF o l1] functor_piece(1) [OF o l1]
  have first: "compiled c (emit c1 [opFunctor, i]) [IFunctor ?p]"
    by (intro compiled_emit) auto
  have last: "compiled c2 (emit c2 [opPop]) [IPop]"
    by (intro compiled_emit) (auto intro: decodes_to_simple)
  from compiled_trans [OF compiled_trans [OF first mid] last] show ?case
    unfolding c' by simp
next
  case (6 c x)
  then show ?case by simp
next
  case (7 c)
  then show ?case by simp
next
  case (8 c)
  then show ?case by (simp add: compiled_refl)
next
  case (9 c t ts)
  obtain r c1 where a: "compileArg c t = (r, c1)" by (cases "compileArg c t")
  from "9.prems"(1) a have r: "r = None" and rest: "compileArgs c1 ts = (None, c')"
    by (auto split: option.splits)
  from "9.IH"(2) [OF a [unfolded r, symmetric] refl rest "9.prems"(2,3)]
  have two: "compiled c1 c' (sym_args ts)" .
  then have "extends c1 c'" by (simp add: compiled_def)
  with "9.prems" have "length (xrTable c1) \<le> 256" "length (vars c1) \<le> 256"
    using extends_length by fastforce+
  from "9.IH"(1) [OF a [unfolded r] this]
  have one: "compiled c c1 (sym_arg t)" .
  from compiled_trans [OF one two] show ?case by simp
qed


lemma compilePred_compiled:
  assumes "compilePred c p = (None, c')" and "length (xrTable c') \<le> 256"
    and "length (vars c') \<le> 256"
  shows "compiled c c' (sym_pred p)"
proof (cases p)
  case (Atom a)
  let ?p = "ProcedureIndicator a 0"
  obtain i c1 where o: "xrOffset c (PI ?p) = (i, c1)" by (cases "xrOffset c (PI ?p)")
  with assms(1) Atom have c': "c' = emit c1 [opCall, i]" by (simp add: compilePred_def)
  with assms have l: "length (xrTable c1) \<le> 256" by (simp add: emit_def)
  from xrOffset_index [OF o l] functor_piece(2) [OF o l] show ?thesis
    unfolding c' Atom sym_pred_def by (simp, intro compiled_emit) auto
next
  case (Compound f ts)
  let ?p = "ProcedureIndicator f (int (length ts))"
  obtain r c1 where a: "compileArgs c ts = (r, c1)" by (cases "compileArgs c ts")
  obtain i c2 where o: "xrOffset c1 (PI ?p) = (i, c2)" by (cases "xrOffset c1 (PI ?p)")
  from assms(1) Compound a o have r: "r = None" and c': "c' = emit c2 [opCall, i]"
    by (auto simp: compilePred_def split: option.splits)
  from assms c' have l2: "length (xrTable c2) \<le> 256" "length (vars c2) \<le> 256"
    by (simp_all add: emit_def)
  from xrOffset_extends [OF o] l2 have l1: "length (xrTable c1) \<le> 256" "length (vars c1) \<le> 256"
    using extends_length by fastforce+
  from compileArg_compiled(2) [OF a [unfolded r] l1]
  have one: "compiled c c1 (sym_args ts)" .
  from xrOffset_index [OF o l2(1)] functor_piece(2) [OF o l2(1)]
  have two: "compiled c1 (emit c2 [opCall, i]) [ICall ?p]"
    by (intro compiled_emit) auto
  from compiled_trans [OF one two] show ?thesis
    unfolding c' Compound sym_pred_def by simp
qed (insert assms, auto simp: compilePred_def)

lemma compilePreds_compiled:
  "compilePreds c gs = (None, c') \<Longrightarrow> length (xrTable c') \<le> 256 \<Longrightarrow> length (vars c') \<le> 256
     \<Longrightarrow> compiled c c' (concat (map sym_pred gs))"
proof (induction gs arbitrary: c)
  case Nil
  then show ?case by (simp add: compiled_refl)
next
  case (Cons g gs)
  obtain r c1 where a: "compilePred c g = (r, c1)" by (cases "compilePred c g")
  from Cons.prems(1) a have r: "r = None" and rest: "compilePreds c1 gs = (None, c')"
    by (auto split: option.splits)
  from Cons.IH [OF rest Cons.prems(2,3)] have two: "compiled c1 c' (concat (map sym_pred gs))" .
  then have "extends c1 c'" by (simp add: compiled_def)
  with Cons.prems have "length (xrTable c1) \<le> 256" "length (vars c1) \<le> 256"
    using extends_length by fastforce+
  from compilePred_compiled [OF a [unfolded r] this] have one: "compiled c c1 (sym_pred g)" .
  from compiled_trans [OF one two] show ?case by simp
qed

lemma compileHead_compiled:
  assumes "compileHead c h = (None, c')" and "length (xrTable c') \<le> 256"
    and "length (vars c') \<le> 256"
  shows "compiled c c' (sym_head h)"
proof (cases h)
  case (Atom a)
  with assms(1) show ?thesis by (simp add: compileHead_def sym_head_def compiled_refl)
next
  case (Compound f ts)
  with assms(1) have "compileArgs c ts = (None, c')" by (simp add: compileHead_def)
  from compileArg_compiled(2) [OF this assms(2,3)] Compound show ?thesis
    by (simp add: sym_head_def)
qed (insert assms, auto simp: compileHead_def)

lemma compileClause_compiled:
  assumes "compileClause c h body = (None, c')" and "length (xrTable c') \<le> 256"
    and "length (vars c') \<le> 256"
  shows "compiled c c' (sym_clause h body)"
proof -
  obtain r ch where h: "compileHead c h = (r, ch)" by (cases "compileHead c h")
  with assms(1) have r: "r = None" by (auto simp: compileClause_def split: option.splits)
  have exit: "compiled x (emit x [opExit]) [IExit]" for x
    by (intro compiled_emit) (auto intro: decodes_to_simple)
  show ?thesis
  proof (cases "body = NilTerm")
    case True
    with assms(1) h r have c': "c' = emit ch [opExit]" by (simp add: compileClause_def)
    with assms have "length (xrTable ch) \<le> 256" "length (vars ch) \<le> 256"
      by (simp_all add: emit_def)
    from compileHead_compiled [OF h [unfolded r] this] have "compiled c ch (sym_head h)" .
    from compiled_trans [OF this exit [of ch]] True show ?thesis
      by (simp add: c' sym_clause_def)
  next
    case False
    obtain rb cb where b: "compileBody (emit ch [opEnter]) body = (rb, cb)"
      by (cases "compileBody (emit ch [opEnter]) body")
    with assms(1) h r False have rb: "rb = None" and c': "c' = emit cb [opExit]"
      by (auto simp: compileClause_def split: option.splits)
    from assms c' have lb: "length (xrTable cb) \<le> 256" "length (vars cb) \<le> 256"
      by (simp_all add: emit_def)
    from b rb have "compilePreds (emit ch [opEnter]) (spine body) = (None, cb)"
      by (simp add: compileBody_spine)
    from compilePreds_compiled [OF this lb]
    have goals: "compiled (emit ch [opEnter]) cb (concat (map sym_pred (spine body)))" .
    then have "extends ch cb" by (simp add: compiled_def)
    with lb have lh: "length (xrTable ch) \<le> 256" "length (vars ch) \<le> 256"
      using extends_length by fastforce+
    from compileHead_compiled [OF h [unfolded r] lh] have hd: "compiled c ch (sym_head h)" .
    have enter: "compiled ch (emit ch [opEnter]) [IEnter]"
      by (intro compiled_emit) (auto intro: decodes_to_simple)
    from compiled_trans [OF compiled_trans [OF compiled_trans [OF hd enter] goals] exit [of cb]]
      False
    show ?thesis by (simp add: c' sym_clause_def)
  qed
qed

section \<open>Properties\<close>

subsection \<open>Unification of compounds\<close>

text \<open>
  Claim C2. Let \<open>t\<close> resolve to a compound \<open>g(us)\<close>, as every compound \<open>t\<close> does. Unifying
  the compound \<open>f(ts)\<close> with \<open>t\<close> is \<^verbatim>\<open>Compound.Unify\<close>. It fails with the environment unchanged
  when the functors or the numbers of arguments differ. It succeeds with \<open>env'\<close> exactly
  when the functors and the numbers of arguments agree and the argument pairs unify from
  left to right, threading the environment from \<open>env\<close> to \<open>env'\<close>. When the pairs before
  some pair unify and that pair fails, the result is the failure of that pair, whatever
  the pairs after it are: they are not attempted.
\<close>

theorem Compound_Unify_compounds:
  assumes "Resolve d env t = Some (Compound g us)"
  shows "Term_Unify (Suc d) (Compound f ts) t oc env = Compound_Unify d f ts t oc env
    \<and> (f \<noteq> g \<or> length ts \<noteq> length us \<longrightarrow> Compound_Unify d f ts t oc env = Some (env, False))
    \<and> (Compound_Unify d f ts t oc env = Some (env', True) \<longleftrightarrow>
         f = g \<and> length ts = length us \<and> threaded d (zip ts us) oc env env')
    \<and> (f = g \<and> length ts = length us \<and> zip ts us = ps1 @ (a, b) # ps2
         \<and> threaded d ps1 oc env env1 \<and> Term_Unify d a b oc env1 = Some (env2, False) \<longrightarrow>
         Compound_Unify d f ts t oc env = Some (env2, False))"
proof -
  have eq: "Compound_Unify d f ts t oc env = Compound_Unify_loop d (zip ts us) oc env"
    if "f = g" "length ts = length us"
    using assms that by simp
  have mis: "Compound_Unify d f ts t oc env = Some (env, False)"
    if "f \<noteq> g \<or> length ts \<noteq> length us"
    using assms that by auto
  have ok: "Compound_Unify d f ts t oc env = Some (env', True) \<longleftrightarrow>
         f = g \<and> length ts = length us \<and> threaded d (zip ts us) oc env env'"
  proof (cases "f = g \<and> length ts = length us")
    case True
    with eq loop_succeeds_iff show ?thesis by simp
  next
    case False
    with mis show ?thesis by auto
  qed
  have sc: "Compound_Unify d f ts t oc env = Some (env2, False)"
    if "f = g" "length ts = length us" "zip ts us = ps1 @ (a, b) # ps2"
       "threaded d ps1 oc env env1" "Term_Unify d a b oc env1 = Some (env2, False)"
  proof -
    from that(4) have "Compound_Unify_loop d ps1 oc env = Some (env1, True)"
      by (simp add: loop_succeeds_iff)
    from loop_short_circuit [OF this that(5)] eq [OF that(1,2)] that(3) show ?thesis by simp
  qed
  from mis ok sc show ?thesis by auto
qed

text \<open>
  C2 on \<^verbatim>\<open>f(X0, b, X1)\<close> against \<^verbatim>\<open>f(a, c, d)\<close>: the first pair binds \<^verbatim>\<open>X0\<close>, the second
  fails, and \<^verbatim>\<open>X1\<close> stays unbound; against \<^verbatim>\<open>g(a, c, d)\<close> the functors differ; \<^verbatim>\<open>f(X0)\<close>
  against \<^verbatim>\<open>f(a, c, d)\<close> differs in arity; \<^verbatim>\<open>f(X0)\<close> against \<^verbatim>\<open>f(a)\<close> succeeds.
\<close>

theorem Compound_Unify_compounds_witness:
  "Resolve 8 Map.empty (Compound ''f'' [Atom ''a'', Atom ''c'', Atom ''d'']) =
     Some (Compound ''f'' [Atom ''a'', Atom ''c'', Atom ''d''])
   \<and> Compound_Unify 8 ''f'' [Variable 0, Atom ''b'', Variable 1]
       (Compound ''f'' [Atom ''a'', Atom ''c'', Atom ''d'']) False Map.empty =
     Some ([0 \<mapsto> Atom ''a''], False)
   \<and> Compound_Unify 8 ''f'' [Variable 0, Atom ''b'', Variable 1]
       (Compound ''g'' [Atom ''a'', Atom ''c'', Atom ''d'']) False Map.empty =
     Some (Map.empty, False)
   \<and> Compound_Unify 8 ''f'' [Variable 0]
       (Compound ''f'' [Atom ''a'', Atom ''c'', Atom ''d'']) False Map.empty =
     Some (Map.empty, False)
   \<and> Compound_Unify 8 ''f'' [Variable 0] (Compound ''f'' [Atom ''a'']) False Map.empty =
     Some ([0 \<mapsto> Atom ''a''], True)"
proof -
  let ?t = "Compound ''f'' [Atom ''a'', Atom ''c'', Atom ''d'']"
  let ?ts = "[Variable 0, Atom ''b'', Variable 1]"
  let ?e1 = "[0 \<mapsto> Atom ''a'']"
  have r: "Resolve 8 Map.empty ?t = Some ?t" by simp
  have th: "threaded 8 [(Variable 0, Atom ''a'')] False Map.empty ?e1"
    by (simp add: threaded_Cons threaded_Nil demo_Unify_first)
  have z: "zip ?ts [Atom ''a'', Atom ''c'', Atom ''d''] =
      [(Variable 0, Atom ''a'')] @ (Atom ''b'', Atom ''c'') # [(Variable 1, Atom ''d'')]"
    by simp
  from Compound_Unify_compounds [OF r, of "''f''" ?ts False _ "[(Variable 0, Atom ''a'')]"
      "Atom ''b''" "Atom ''c''" "[(Variable 1, Atom ''d'')]" ?e1 ?e1] th z demo_Unify_second
  have 1: "Compound_Unify 8 ''f'' ?ts ?t False Map.empty = Some (?e1, False)"
    by simp
  have r2: "Resolve 8 Map.empty (Compound ''g'' [Atom ''a'', Atom ''c'', Atom ''d'']) =
      Some (Compound ''g'' [Atom ''a'', Atom ''c'', Atom ''d''])" by simp
  from Compound_Unify_compounds [OF r2, of "''f''" ?ts False]
  have 2: "Compound_Unify 8 ''f'' ?ts (Compound ''g'' [Atom ''a'', Atom ''c'', Atom ''d''])
      False Map.empty = Some (Map.empty, False)"
    by simp
  from Compound_Unify_compounds [OF r, of "''f''" "[Variable 0]" False]
  have 3: "Compound_Unify 8 ''f'' [Variable 0] ?t False Map.empty = Some (Map.empty, False)"
    by simp
  have r4: "Resolve 8 Map.empty (Compound ''f'' [Atom ''a'']) = Some (Compound ''f'' [Atom ''a''])"
    by simp
  from Compound_Unify_compounds [OF r4, of "''f''" "[Variable 0]" False ?e1] th
  have 4: "Compound_Unify 8 ''f'' [Variable 0] (Compound ''f'' [Atom ''a'']) False Map.empty =
      Some (?e1, True)"
    by simp
  from r 1 2 3 4 show ?thesis by blast
qed

subsection \<open>Procedure dispatch\<close>

text \<open>
  Claim C1. When the indicator is absent from the procedure table, \<^verbatim>\<open>arrive\<close> follows the
  unknown-action setting: with \<^verbatim>\<open>error\<close> it returns an error Promise carrying
  \<^verbatim>\<open>existence_error(procedure, name/arity)\<close>; with \<^verbatim>\<open>fail\<close> it returns false and writes no
  log record; with \<^verbatim>\<open>warning\<close> it writes exactly one warning record and returns false.
  When the indicator is present it returns a Delay of one function, and calling that
  function calls the procedure with \<open>args\<close> and \<open>k\<close>.
\<close>

theorem arrive_unknown_policy:
  "(map_index (procedures e) ind = None \<and> unknown e = unknownError \<longrightarrow>
      arrive e ind args k s =
        (Error (existenceErrorProcedure (Compound ''/'' [Atom (name ind), Integer (arity ind)])),
         s))
   \<and> (map_index (procedures e) ind = None \<and> unknown e = unknownFail \<longrightarrow>
      arrive e ind args k s = (Bool False, s))
   \<and> (map_index (procedures e) ind = None \<and> unknown e = unknownWarning \<longrightarrow>
      arrive e ind args k s =
        (Bool False,
         s\<lparr>logged := logged s @ [Warn ''unknown procedure'' [(''procedure'', PI ind)]]\<rparr>))
   \<and> (map_index (procedures e) ind = Some p \<longrightarrow>
      arrive e ind args k s = (Delay [ArriveCall p args k], s)
      \<and> call_thunk P d e (ArriveCall p args k) s = procedure_Call P d p args k s)"
  by (simp add: arrive_def call_thunk_def unknownError_def unknownFail_def unknownWarning_def)

text \<open>
  The four cases of C1 on \<^verbatim>\<open>undef/0\<close> with an empty table and on a registered \<^verbatim>\<open>foo/0\<close>.
\<close>

theorem arrive_unknown_policy_witness:
  "arrive \<lparr>procedures = None, unknown = 0\<rparr> (ProcedureIndicator ''undef'' 0) (List []) Done store0 =
     (Error (Exception (Compound ''existence_error''
        [Atom ''procedure'', Compound ''/'' [Atom ''undef'', Integer 0]])), store0)
   \<and> arrive \<lparr>procedures = None, unknown = 1\<rparr> (ProcedureIndicator ''undef'' 0) (List []) Done store0 =
     (Bool False, store0)
   \<and> arrive \<lparr>procedures = None, unknown = 2\<rparr> (ProcedureIndicator ''undef'' 0) (List []) Done store0 =
     (Bool False, store0\<lparr>logged :=
        [Warn ''unknown procedure'' [(''procedure'', PI (ProcedureIndicator ''undef'' 0))]]\<rparr>)
   \<and> arrive \<lparr>procedures = Some [ProcedureIndicator ''foo'' 0 \<mapsto> Predicate0 7], unknown = 0\<rparr>
        (ProcedureIndicator ''foo'' 0) (List []) Done store0 =
     (Delay [ArriveCall (Predicate0 7) (List []) Done], store0)"
  using arrive_unknown_policy [of "\<lparr>procedures = None, unknown = 0\<rparr>"
          "ProcedureIndicator ''undef'' 0" "List []" Done store0]
        arrive_unknown_policy [of "\<lparr>procedures = None, unknown = 1\<rparr>"
          "ProcedureIndicator ''undef'' 0" "List []" Done store0]
        arrive_unknown_policy [of "\<lparr>procedures = None, unknown = 2\<rparr>"
          "ProcedureIndicator ''undef'' 0" "List []" Done store0]
        arrive_unknown_policy [of
          "\<lparr>procedures = Some [ProcedureIndicator ''foo'' 0 \<mapsto> Predicate0 7], unknown = 0\<rparr>"
          "ProcedureIndicator ''foo'' 0" "List []" Done store0 "Predicate0 7"]
  by (simp add: map_index_def unknownError_def unknownFail_def unknownWarning_def
        existenceErrorProcedure_def store0_def)

text \<open>
  Claim C10. Registering a host predicate of arity 0 to 5 does not fault, whatever the
  engine, and so on the zero-value engine whose procedure table is nil: the table is
  allocated first. After it, \<^verbatim>\<open>arrive\<close> with the registered name and arity finds the
  predicate and dispatches it.
\<close>

theorem Register_then_arrive:
  "(\<exists>e'. Register0 e nm p = Inr e'
      \<and> arrive e' (ProcedureIndicator nm 0) args k s = (Delay [ArriveCall (Predicate0 p) args k], s))
   \<and> (\<exists>e'. Register1 e nm p = Inr e'
      \<and> arrive e' (ProcedureIndicator nm 1) args k s = (Delay [ArriveCall (Predicate1 p) args k], s))
   \<and> (\<exists>e'. Register2 e nm p = Inr e'
      \<and> arrive e' (ProcedureIndicator nm 2) args k s = (Delay [ArriveCall (Predicate2 p) args k], s))
   \<and> (\<exists>e'. Register3 e nm p = Inr e'
      \<and> arrive e' (ProcedureIndicator nm 3) args k s = (Delay [ArriveCall (Predicate3 p) args k], s))
   \<and> (\<exists>e'. Register4 e nm p = Inr e'
      \<and> arrive e' (ProcedureIndicator nm 4) args k s = (Delay [ArriveCall (Predicate4 p) args k], s))
   \<and> (\<exists>e'. Register5 e nm p = Inr e'
      \<and> arrive e' (ProcedureIndicator nm 5) args k s = (Delay [ArriveCall (Predicate5 p) args k], s))"
  unfolding Register0_def Register1_def Register2_def Register3_def Register4_def Register5_def
  by (intro conjI allocate_register_arrive)

text \<open>C10 on the zero-value engine, for \<^verbatim>\<open>halt/0\<close> and \<^verbatim>\<open>succ/2\<close>.\<close>

theorem Register_then_arrive_witness:
  "procedures zeroEngine = None
   \<and> (\<exists>e'. Register0 zeroEngine ''halt'' 3 = Inr e'
      \<and> arrive e' (ProcedureIndicator ''halt'' 0) (List []) Done store0 =
          (Delay [ArriveCall (Predicate0 3) (List []) Done], store0))
   \<and> (\<exists>e'. Register2 zeroEngine ''succ'' 4 = Inr e'
      \<and> arrive e' (ProcedureIndicator ''succ'' 2) (List []) Done store0 =
          (Delay [ArriveCall (Predicate2 4) (List []) Done], store0))"
  using Register_then_arrive [of zeroEngine "''halt''" 3 "List []" Done store0]
        Register_then_arrive [of zeroEngine "''succ''" 4 "List []" Done store0]
  by (simp add: zeroEngine_def)

text \<open>
  Claim C9. Calling a user-defined procedure with no clause returns false at once: the
  result is not an error, the store is as it was, no assignment is computed (the result
  does not depend on the recursion bound, not even when it is 0), and the result holds
  no function, so the continuation is never called.
\<close>

theorem clauses_Call_empty:
  "clauses_Call d [] args k s = Inr (Bool False, s)
   \<and> procedure_Call P d (Clauses []) args k s = Inr (Bool False, s)
   \<and> clauses_Call 0 [] args k s = Inr (Bool False, s)"
  by (simp add: clauses_Call_def procedure_Call_def)



subsection \<open>The machine\<close>

text \<open>
  Claim C6. The call instruction with an operand \<open>i\<close> inside the constant table unifies
  \<open>args\<close> with the empty list and returns false when that fails; then it returns an error
  unless \<open>xr[i]\<close> is a procedure indicator; otherwise it returns a Delay of one function.
  Calling that function is \<^verbatim>\<open>arrive\<close> on the indicator with the current \<open>astack\<close> as packed
  arguments and with a continuation that allocates one fresh variable and delays the
  execution of the code after the call instruction with both \<open>args\<close> and \<open>astack\<close> set to
  that variable.
\<close>

theorem exec_call:
  "(unat i < length xr \<and> call_Unify P args (List []) False s = Inr (False, s1) \<longrightarrow>
      exec P (opCall # i # pc) xr vs k args astack s = Inr (Bool False, s1))
   \<and> (unat i < length xr \<and> call_Unify P args (List []) False s = Inr (True, s1)
        \<and> (\<forall>pfn. xr ! unat i \<noteq> PI pfn) \<longrightarrow>
      exec P (opCall # i # pc) xr vs k args astack s =
        Inr (Error (ErrorsNew ''not a principal functor''), s1))
   \<and> (unat i < length xr \<and> call_Unify P args (List []) False s = Inr (True, s1)
        \<and> xr ! unat i = PI pfn \<longrightarrow>
      exec P (opCall # i # pc) xr vs k args astack s =
        Inr (Delay [CallArrive pfn astack (CallReturn pc xr vs k)], s1))
   \<and> call_thunk P d e (CallArrive pfn astack (CallReturn pc xr vs k)) s' =
        Inr (arrive e pfn astack (CallReturn pc xr vs k) s')
   \<and> call_thunk P d e (CallReturn pc xr vs k) s' =
        Inr (Delay [CallResume pc xr vs k (fst (newVariable s'))], snd (newVariable s'))
   \<and> call_thunk P d e (CallResume pc xr vs k v) s' =
        exec P pc xr vs k (Variable v) (Variable v) s'"
  by (auto simp add: op_defs call_thunk_def split: Term.splits prod.splits)


text \<open>
  C6 on the code \<^verbatim>\<open>call 0; exit\<close>: with \<^verbatim>\<open>q/1\<close> in the table the result is the delayed
  dispatch, with the atom \<^verbatim>\<open>q\<close> there it is the error.
\<close>

theorem exec_call_witness:
  "unat (0 :: 8 word) < length [PI (ProcedureIndicator ''q'' 1)]
   \<and> exec demo_prims [opCall, 0, opExit] [PI (ProcedureIndicator ''q'' 1)] [] Done
        (List []) (Variable 0) store0 =
      Inr (Delay [CallArrive (ProcedureIndicator ''q'' 1) (Variable 0)
                    (CallReturn [opExit] [PI (ProcedureIndicator ''q'' 1)] [] Done)], store0)
   \<and> exec demo_prims [opCall, 0, opExit] [Atom ''q''] [] Done (List []) (Variable 0) store0 =
      Inr (Error (ErrorsNew ''not a principal functor''), store0)"
  using exec_call [where i = 0 and xr = "[PI (ProcedureIndicator ''q'' 1)]" and P = demo_prims
          and args = "List []" and s = store0 and ?s1.0 = store0 and pc = "[opExit]" and vs = "[]"
          and k = Done and astack = "Variable 0" and pfn = "ProcedureIndicator ''q'' 1"]
        exec_call [where i = 0 and xr = "[Atom ''q'']" and P = demo_prims
          and args = "List []" and s = store0 and ?s1.0 = store0 and pc = "[opExit]" and vs = "[]"
          and k = Done and astack = "Variable 0"]
        demo_Unify_nil
  by simp

text \<open>
  Claim C7. Each of \<^verbatim>\<open>predicate0.Call\<close> .. \<^verbatim>\<open>predicate5.Call\<close> is the host dispatch of the
  spec at its arity: \<open>n\<close> variables are allocated, distinct and unbound; the packed
  arguments are unified with the list of them; when that fails the result is an error
  Promise (not false), and otherwise it is the result of the host function on those
  variables with the continuation \<open>PredicateExit k\<close>. Calling that continuation executes
  the program \<^verbatim>\<open>[exit]\<close>, which delays the caller's continuation \<open>k\<close>.
\<close>

theorem host_predicate_Call:
  "predicate0_Call P p args k s =
     host_dispatch 0 (ErrorsNew ''wrong number of arguments'') P p args k s
   \<and> predicate1_Call P p args k s =
     host_dispatch 1 (FmtErrorf ''wrong number of arguments: %s'' [ArgTerm args]) P p args k s
   \<and> predicate2_Call P p args k s =
     host_dispatch 2 (ErrorsNew ''wrong number of arguments'') P p args k s
   \<and> predicate3_Call P p args k s =
     host_dispatch 3 (ErrorsNew ''wrong number of arguments'') P p args k s
   \<and> predicate4_Call P p args k s =
     host_dispatch 4 (ErrorsNew ''wrong number of arguments'') P p args k s
   \<and> predicate5_Call P p args k s =
     host_dispatch 5 (ErrorsNew ''wrong number of arguments'') P p args k s
   \<and> fst (newVariables n s) = [next_var s..<next_var s + n]
   \<and> (\<forall>v \<in> set (fst (newVariables n s)). refs (snd (newVariables n s)) v = NilTerm)
   \<and> (call_Unify P args (List (map Variable (fst (newVariables n s)))) False
          (snd (newVariables n s)) = Inr (False, s2) \<longrightarrow>
        host_dispatch n err P p args k s = Inr (Error err, s2))
   \<and> (call_Unify P args (List (map Variable (fst (newVariables n s)))) False
          (snd (newVariables n s)) = Inr (True, s2) \<longrightarrow>
        host_dispatch n err P p args k s =
          host P p (map Variable (fst (newVariables n s))) (PredicateExit k) s2)
   \<and> call_thunk P d e (PredicateExit k) s' = exec P [opExit] [] [] k NilTerm NilTerm s'
   \<and> exec P [opExit] [] [] k NilTerm NilTerm s' = Inr (Delay [k], s')"
proof -
  have fresh: "\<forall>v \<in> set (fst (newVariables n s)). refs (snd (newVariables n s)) v = NilTerm"
    by (simp add: newVariables_fst newVariables_refs)
  have bad: "host_dispatch n err P p args k s = Inr (Error err, s2)"
    if "call_Unify P args (List (map Variable (fst (newVariables n s)))) False
          (snd (newVariables n s)) = Inr (False, s2)"
    using that by (simp add: host_dispatch_def case_prod_unfold)
  have good: "host_dispatch n err P p args k s =
          host P p (map Variable (fst (newVariables n s))) (PredicateExit k) s2"
    if "call_Unify P args (List (map Variable (fst (newVariables n s)))) False
          (snd (newVariables n s)) = Inr (True, s2)"
    using that by (simp add: host_dispatch_def case_prod_unfold)
  have ex: "exec P [opExit] [] [] k NilTerm NilTerm s' = Inr (Delay [k], s')"
    by (simp add: op_defs)
  have th: "call_thunk P d e (PredicateExit k) s' = exec P [opExit] [] [] k NilTerm NilTerm s'"
    by (simp add: call_thunk_def)
  show ?thesis
    using predicate_Call_dispatch [of P p args k s] newVariables_fst [of n s] fresh bad good ex th
    by blast
qed

text \<open>
  C7 on a predicate of arity 1: called with no argument it returns the error, called with
  the argument \<^verbatim>\<open>a\<close> it binds the fresh variable and calls the host function.
\<close>

theorem host_predicate_Call_witness:
  "predicate1_Call demo_prims 7 (List []) Done store0 =
     Inr (Error (FmtErrorf ''wrong number of arguments: %s'' [ArgTerm (List [])]),
          store0\<lparr>next_var := 1\<rparr>)
   \<and> predicate1_Call demo_prims 7 (List [Atom ''a'']) Done store0 =
     Inr (Delay [PredicateExit Done],
          store0\<lparr>refs := (\<lambda>_. NilTerm)(0 := Atom ''a''), next_var := 1\<rparr>)"
proof -
  let ?e1 = "FmtErrorf ''wrong number of arguments: %s'' [ArgTerm (List [])]"
  let ?e2 = "FmtErrorf ''wrong number of arguments: %s'' [ArgTerm (List [Atom ''a''])]"
  let ?s1 = "store0\<lparr>next_var := 1\<rparr>"
  let ?s2 = "store0\<lparr>refs := (\<lambda>_. NilTerm)(0 := Atom ''a''), next_var := 1\<rparr>"
  note bad = host_predicate_Call [where P = demo_prims and p = 7 and args = "List []"
      and k = Done and s = store0 and n = 1 and ?s2.0 = ?s1 and err = ?e1]
  note good = host_predicate_Call [where P = demo_prims and p = 7 and args = "List [Atom ''a'']"
      and k = Done and s = store0 and n = 1 and ?s2.0 = ?s2 and err = ?e2]
  have u1: "call_Unify demo_prims (List []) (List (map Variable (fst (newVariables 1 store0))))
      False (snd (newVariables 1 store0)) = Inr (False, ?s1)"
    unfolding demo_newVariables_1 using demo_Unify_wrong_arity by simp
  have u2: "call_Unify demo_prims (List [Atom ''a''])
      (List (map Variable (fst (newVariables 1 store0))))
      False (snd (newVariables 1 store0)) = Inr (True, ?s2)"
    unfolding demo_newVariables_1 using demo_Unify_right_arity by simp
  from bad u1 have b1: "predicate1_Call demo_prims 7 (List []) Done store0 = Inr (Error ?e1, ?s1)"
    by metis
  from good u2 have "predicate1_Call demo_prims 7 (List [Atom ''a'']) Done store0 =
      host demo_prims 7 (map Variable (fst (newVariables 1 store0))) (PredicateExit Done) ?s2"
    by metis
  then have b2: "predicate1_Call demo_prims 7 (List [Atom ''a'']) Done store0 =
      Inr (Delay [PredicateExit Done], ?s2)"
    unfolding demo_newVariables_1 by (simp add: demo_prims_def)
  from b1 b2 show ?thesis by simp
qed

text \<open>
  Claim C8, as amended. Executing an empty tape, and so reaching the end of a tape
  without an exit instruction, returns an error Promise; executing an opcode above 7
  returns an error Promise. Neither faults. The errors are the plain Go errors
  \<^verbatim>\<open>errors.New("non-exit end of bytecode")\<close> and \<^verbatim>\<open>fmt.Errorf("unknown(%d)", opcode)\<close>.
\<close>

theorem exec_unknown_opcode_or_end:
  "exec P [] xr vs k args astack s = Inr (Error (ErrorsNew ''non-exit end of bytecode''), s)
   \<and> exec P (replicate n opVoid) xr vs k args astack s =
        Inr (Error (ErrorsNew ''non-exit end of bytecode''), s)
   \<and> (7 < opc \<longrightarrow>
        exec P (opc # pc) xr vs k args astack s =
          Inr (Error (FmtErrorf ''unknown(%d)'' [ArgInt (uint opc)]), s))"
  using exec_void_tape [of P n xr vs k args astack s] by (auto simp add: op_defs)

text \<open>The amended C8 on the tape \<^verbatim>\<open>[8, 3]\<close>.\<close>

theorem exec_unknown_opcode_or_end_witness:
  "(7 :: 8 word) < 8
   \<and> exec demo_prims [8, 3] [] [] Done (List []) (List []) store0 =
       Inr (Error (FmtErrorf ''unknown(%d)'' [ArgInt 8]), store0)"
  using exec_unknown_opcode_or_end
          [of demo_prims "[]" "[]" Done "List []" "List []" store0 0 8 "[3]"]
  by simp

text \<open>
  C8 as stated fails: on the tape \<^verbatim>\<open>[8]\<close> and on the tape \<^verbatim>\<open>[void]\<close>, which ends without
  exit, the error that \<^verbatim>\<open>exec\<close> returns is not a \<^verbatim>\<open>system_error\<close>.
\<close>

theorem exec_error_not_system_error:
  "exec demo_prims [8] [] [] Done (List []) (List []) store0 =
     Inr (Error (FmtErrorf ''unknown(%d)'' [ArgInt 8]), store0)
   \<and> \<not> is_system_error (FmtErrorf ''unknown(%d)'' [ArgInt 8])
   \<and> exec demo_prims [0] [] [] Done (List []) (List []) store0 =
     Inr (Error (ErrorsNew ''non-exit end of bytecode''), store0)
   \<and> \<not> is_system_error (ErrorsNew ''non-exit end of bytecode'')"
  by (simp add: op_defs is_system_error_def)

subsection \<open>The compiler\<close>

text \<open>
  Claim C5. When \<^verbatim>\<open>compileClause\<close> returns no error, the code of the clause ends with
  the exit instruction. The head compiles to a prefix. Without a body the code is that
  prefix followed by exit. With a body it is the prefix, then enter, then the code of the
  goals on the body's conjunction spine, compiled from left to right, then exit.
\<close>

theorem compileClause_shape:
  assumes "compileClause c head body = (None, c')"
  shows "\<exists>ch pre. compileHead c head = (None, ch) \<and> bytecode ch = bytecode c @ pre
      \<and> (body = NilTerm \<longrightarrow> bytecode c' = bytecode ch @ [opExit])
      \<and> (body \<noteq> NilTerm \<longrightarrow>
            (\<exists>cb. compilePreds (emit ch [opEnter]) (spine body) = (None, cb))
            \<and> bytecode c' =
                bytecode ch @ [opEnter] @ goals_code (emit ch [opEnter]) (spine body) @ [opExit])
      \<and> bytecode c' \<noteq> [] \<and> last (bytecode c') = opExit"
proof -
  obtain r ch where h: "compileHead c head = (r, ch)" by (cases "compileHead c head")
  with assms have r: "r = None" by (auto simp: compileClause_def split: option.splits)
  from compileHead_grows [of c head] h obtain pre where pre: "bytecode ch = bytecode c @ pre"
    by auto
  show ?thesis
  proof (cases "body = NilTerm")
    case True
    with assms h r have "c' = emit ch [opExit]" by (simp add: compileClause_def)
    with True h r pre show ?thesis by simp
  next
    case False
    obtain rb cb where b: "compileBody (emit ch [opEnter]) body = (rb, cb)"
      by (cases "compileBody (emit ch [opEnter]) body")
    with assms h r False have rb: "rb = None" and c': "c' = emit cb [opExit]"
      by (auto simp: compileClause_def split: option.splits)
    from b rb have ps: "compilePreds (emit ch [opEnter]) (spine body) = (None, cb)"
      by (simp add: compileBody_spine)
    from compilePreds_code [OF ps]
    have "bytecode cb = bytecode ch @ [opEnter] @ goals_code (emit ch [opEnter]) (spine body)"
      by simp
    with False h r pre ps c' show ?thesis by simp
  qed
qed

text \<open>C5 on the clause \<^verbatim>\<open>p(X, a) :- q(X), r, s.\<close>\<close>

theorem compileClause_shape_witness:
  "compileClause emptyClause demo_head demo_body = (None, demo_clause)
   \<and> demo_body \<noteq> NilTerm
   \<and> bytecode demo_clause \<noteq> [] \<and> last (bytecode demo_clause) = opExit
   \<and> (\<exists>ch. compileHead emptyClause demo_head = (None, ch)
        \<and> bytecode demo_clause =
            bytecode ch @ [opEnter] @ goals_code (emit ch [opEnter]) (spine demo_body) @ [opExit])"
proof -
  have h: "compileClause emptyClause demo_head demo_body = (None, demo_clause)"
    by (rule demo_compiles)
  have b: "demo_body \<noteq> NilTerm" by (simp add: demo_body_def)
  from compileClause_shape [OF h] b h show ?thesis by blast
qed

text \<open>
  Claim C4, as amended. Every operand index is one byte. For a clause that compiles
  without error into a constant table and a variable table of at most 256 entries each,
  every operand index that the compiler emitted identifies its table entry: read with
  the tables of the compiled clause, the code is the instruction sequence that section
  4.2 of the spec gives for the head and the body, every \<^verbatim>\<open>const\<close>, \<^verbatim>\<open>functor\<close> and \<^verbatim>\<open>call\<close>
  with its constant or indicator and every \<^verbatim>\<open>var\<close> with its variable. In particular the
  index that \<^verbatim>\<open>xrOffset\<close> or \<^verbatim>\<open>varOffset\<close> returns is inside the table, and the entry there
  is the term or variable that was asked for.
\<close>

theorem compiled_operands_identify_entries:
  "(compileClause c h body = (None, c') \<and> bytecode c = []
      \<and> length (xrTable c') \<le> 256 \<and> length (vars c') \<le> 256 \<longrightarrow>
    decode (xrTable c') (vars c') (bytecode c') = Some (sym_clause h body))
   \<and> (xrOffset c t = (b, c') \<and> length (xrTable c') \<le> 256 \<longrightarrow>
      unat b < length (xrTable c') \<and> xrTable c' ! unat b = t)
   \<and> (varOffset c v = (b, c') \<and> length (vars c') \<le> 256 \<longrightarrow>
      unat b < length (vars c') \<and> vars c' ! unat b = v)"
proof -
  have whole: "decode (xrTable c') (vars c') (bytecode c') = Some (sym_clause h body)"
    if a: "compileClause c h body = (None, c') \<and> bytecode c = []
      \<and> length (xrTable c') \<le> 256 \<and> length (vars c') \<le> 256"
  proof -
    from a have "compiled c c' (sym_clause h body)" by (intro compileClause_compiled) auto
    with a obtain bs where "bytecode c' = bs"
      and "\<And>X V. covers X V c' \<Longrightarrow> decodes_to X V bs (sym_clause h body)"
      by (auto simp: compiled_def)
    moreover have "covers (xrTable c') (vars c') c'" by (simp add: covers_def)
    ultimately show ?thesis by (auto intro: decodes_to_whole)
  qed
  from whole xrOffset_index [of c t b c'] varOffset_index [of c v b c'] show ?thesis
    by blast
qed

text \<open>
  The amended C4 on the clause \<^verbatim>\<open>p(X, a) :- q(X), r, s.\<close>: its code reads as the
  instructions of the clause, and in its tables the indicator \<^verbatim>\<open>r/0\<close> is found at index 2.
\<close>

theorem compiled_operands_identify_entries_witness:
  "compileClause emptyClause demo_head demo_body = (None, demo_clause)
   \<and> decode (xrTable demo_clause) (vars demo_clause) (bytecode demo_clause) =
       Some [IVar 0, IConst (Atom ''a''), IEnter, IVar 0, ICall (ProcedureIndicator ''q'' 1),
             ICall (ProcedureIndicator ''r'' 0), ICall (ProcedureIndicator ''s'' 0), IExit]
   \<and> xrOffset demo_clause (PI (ProcedureIndicator ''r'' 0)) = (2, demo_clause)
   \<and> xrTable demo_clause ! unat (2 :: 8 word) = PI (ProcedureIndicator ''r'' 0)"
proof -
  have x: "xrOffset demo_clause (PI (ProcedureIndicator ''r'' 0)) = (2, demo_clause)"
    by (simp add: xrOffset_def demo_clause_def)
  have l: "length (xrTable demo_clause) \<le> 256" "length (vars demo_clause) \<le> 256"
    by (simp_all add: demo_clause_def)
  have e: "bytecode emptyClause = []" by (simp add: emptyClause_def)
  have s: "sym_clause demo_head demo_body =
      [IVar 0, IConst (Atom ''a''), IEnter, IVar 0, ICall (ProcedureIndicator ''q'' 1),
       ICall (ProcedureIndicator ''r'' 0), ICall (ProcedureIndicator ''s'' 0), IExit]"
    by (simp add: sym_clause_def sym_head_def sym_pred_def demo_head_def demo_body_def)
  from compiled_operands_identify_entries
         [of emptyClause demo_head demo_body demo_clause]
       compiled_operands_identify_entries
         [of demo_clause _ _ demo_clause "PI (ProcedureIndicator ''r'' 0)" 2]
       demo_compiles x l e s
  show ?thesis by simp
qed

text \<open>
  C4 as stated fails: the fact \<^verbatim>\<open>f(0, 1, ..., 256)\<close> needs 257 table entries and compiles
  without an error. The operand emitted for its last argument, the constant 256 at entry
  256 of the table, is the byte 0, and entry 0 of the table is the constant 0.
\<close>

theorem wide_clause_compiles:
  "fst (compileClause emptyClause wide_head NilTerm) = None
   \<and> length (xrTable (snd (compileClause emptyClause wide_head NilTerm))) = 257
   \<and> xrTable (snd (compileClause emptyClause wide_head NilTerm)) ! 256 = Integer 256
   \<and> xrTable (snd (compileClause emptyClause wide_head NilTerm)) ! 0 = Integer 0
   \<and> bytecode (snd (compileClause emptyClause wide_head NilTerm)) ! 512 = opConst
   \<and> bytecode (snd (compileClause emptyClause wide_head NilTerm)) ! 513 = 0"
proof -
  let ?ns = "map int [0..<257]"
  have d: "distinct ?ns" by (simp add: distinct_map inj_on_def)
  have w: "wide_head = Compound ''f'' (map Integer ?ns)" by (simp add: wide_head_def)
  have a: "compileArgs emptyClause (map Integer ?ns) =
     (None, emptyClause\<lparr>xrTable := xrTable emptyClause @ map Integer ?ns,
        bytecode := bytecode emptyClause @ const_code (length (xrTable emptyClause)) (length ?ns)\<rparr>)"
    by (rule compileArgs_new_Integers [OF d]) (simp add: emptyClause_def)
  have c: "compileClause emptyClause wide_head NilTerm =
     (None, emptyClause\<lparr>xrTable := map Integer ?ns, bytecode := const_code 0 257 @ [opExit]\<rparr>)"
    unfolding w compileClause_def compileHead_def using a by (simp add: emptyClause_def emit_def)
  have n1: "const_code 0 257 ! (2 * 256) = opConst
      \<and> const_code 0 257 ! (2 * 256 + 1) = of_nat (0 + 256)"
    by (rule const_code_nth) simp
  have x256: "map Integer ?ns ! 256 = Integer 256" by (simp del: upt_Suc)
  have x0: "map Integer ?ns ! 0 = Integer 0" by (simp del: upt_Suc)
  show ?thesis
    unfolding c using n1 x256 x0 by (simp add: nth_append const_code_length del: upt_Suc)
qed

end
